theory Spec2Isabelle
  imports Main
begin

section \<open>Python values\<close>

text \<open>
  A Python \<open>str\<close> is a sequence of code points, so a string is a list of natural numbers
  and the item of a string at an index is a one-character string. \<open>ustr\<close> turns an
  ASCII literal of the source into that form.
\<close>

type_synonym pystr = "nat list"

definition ustr :: "string \<Rightarrow> pystr" where
  "ustr s = map of_char s"

text \<open>
  What \<open>json.loads\<close> builds: \<open>None\<close>, \<open>bool\<close>, \<open>int\<close>, \<open>str\<close>, \<open>list\<close> and \<open>dict\<close> (its items
  in insertion order, the keys distinct). Numbers with a fraction are left out.
\<close>

datatype json =
    JNull
  | JBool bool
  | JInt int
  | JStr pystr
  | JArr "json list"
  | JObj "(pystr \<times> json) list"

text \<open>The exceptions the modelled code can meet; \<open>Exception\<close> carries its message.\<close>

datatype exn = IndexError | KeyError | TypeError | ValueError | Exception pystr

text \<open>\<open>bool(v)\<close>, the test of \<open>if v\<close> and \<open>if not v\<close>.\<close>

fun truthy :: "json \<Rightarrow> bool" where
  "truthy JNull = False"
| "truthy (JBool b) = b"
| "truthy (JInt i) = (i \<noteq> 0)"
| "truthy (JStr s) = (s \<noteq> [])"
| "truthy (JArr xs) = (xs \<noteq> [])"
| "truthy (JObj kvs) = (kvs \<noteq> [])"

text \<open>
  \<open>v[i]\<close> for a literal index \<open>i \<ge> 0\<close>: out of range on a list or a string is
  \<open>IndexError\<close>, an integer is never a key of a parsed object (\<open>KeyError\<close>), and
  \<open>None\<close>, booleans and integers are not subscriptable (\<open>TypeError\<close>).
\<close>

fun getitem :: "json \<Rightarrow> nat \<Rightarrow> exn + json" where
  "getitem (JArr xs) i = (if i < length xs then Inr (xs ! i) else Inl IndexError)"
| "getitem (JStr s) i = (if i < length s then Inr (JStr [s ! i]) else Inl IndexError)"
| "getitem (JObj kvs) i = Inl KeyError"
| "getitem JNull i = Inl TypeError"
| "getitem (JBool b) i = Inl TypeError"
| "getitem (JInt n) i = Inl TypeError"

text \<open>\<open>for m in v\<close>: the items of a list, the characters of a string, the keys of a dict.\<close>

fun iter_json :: "json \<Rightarrow> exn + json list" where
  "iter_json (JArr xs) = Inr xs"
| "iter_json (JStr s) = Inr (map (\<lambda>c. JStr [c]) s)"
| "iter_json (JObj kvs) = Inr (map (\<lambda>kv. JStr (fst kv)) kvs)"
| "iter_json JNull = Inl TypeError"
| "iter_json (JBool b) = Inl TypeError"
| "iter_json (JInt n) = Inl TypeError"

text \<open>
  \<open>a == b\<close>. A \<open>bool\<close> is an \<open>int\<close> (\<open>True == 1\<close>); lists compare item by item; dicts
  compare as mappings, whatever the order of their items.
\<close>

fun as_number :: "json \<Rightarrow> int option" where
  "as_number (JBool b) = Some (if b then 1 else 0)"
| "as_number (JInt i) = Some i"
| "as_number _ = None"

lemma size_zip_item [termination_simp]:
  "(x, y) \<in> set (zip xs ys) \<Longrightarrow> size (x::json) < Suc (size_list size xs)"
proof -
  assume "(x, y) \<in> set (zip xs ys)"
  then have "x \<in> set xs" by (rule set_zip_leftD)
  then have "size x \<le> size_list size xs" by (rule size_list_estimation') simp
  then show ?thesis by simp
qed

fun py_eq :: "json \<Rightarrow> json \<Rightarrow> bool" where
  "py_eq (JArr xs) (JArr ys) =
     (length xs = length ys \<and> (\<forall>(x, y) \<in> set (zip xs ys). py_eq x y))"
| "py_eq (JObj a) (JObj b) =
     (set (map fst a) = set (map fst b) \<and>
      (\<forall>(k, v) \<in> set a. \<forall>(k', w) \<in> set b. k = k' \<longrightarrow> py_eq v w))"
| "py_eq (JStr s) (JStr t) = (s = t)"
| "py_eq JNull JNull = True"
| "py_eq a b = (case (as_number a, as_number b) of (Some i, Some j) \<Rightarrow> i = j | _ \<Rightarrow> False)"

text \<open>\<open>str(v)\<close>. The \<open>repr\<close> of a string (its quoting and escapes) is the parameter \<open>R\<close>.\<close>

function digits :: "nat \<Rightarrow> pystr" where
  "digits n = (if n < 10 then [48 + n] else digits (n div 10) @ [48 + n mod 10])"
  by pat_completeness auto
termination
  by (relation "measure id") auto

declare digits.simps [simp del]

definition str_int :: "int \<Rightarrow> pystr" where
  "str_int i = (if i < 0 then 45 # digits (nat (- i)) else digits (nat i))"

fun join :: "pystr \<Rightarrow> pystr list \<Rightarrow> pystr" where
  "join sep [] = []"
| "join sep [x] = x"
| "join sep (x # y # ys) = x @ sep @ join sep (y # ys)"

fun py_repr :: "(pystr \<Rightarrow> pystr) \<Rightarrow> json \<Rightarrow> pystr" where
  "py_repr R JNull = ustr ''None''"
| "py_repr R (JBool b) = (if b then ustr ''True'' else ustr ''False'')"
| "py_repr R (JInt i) = str_int i"
| "py_repr R (JStr s) = R s"
| "py_repr R (JArr xs) = ustr ''['' @ join (ustr '', '') (map (py_repr R) xs) @ ustr '']''"
| "py_repr R (JObj kvs) =
     ustr ''{'' @ join (ustr '', '') (map (\<lambda>kv. R (fst kv) @ ustr '': '' @ py_repr R (snd kv)) kvs)
       @ ustr ''}''"

definition py_str :: "(pystr \<Rightarrow> pystr) \<Rightarrow> json \<Rightarrow> pystr" where
  "py_str R v = (case v of JStr s \<Rightarrow> s | _ \<Rightarrow> py_repr R v)"

section \<open>Slices and ranges\<close>

text \<open>
  \<open>xs[lo:hi]\<close> with integer bounds: a negative bound counts from the end, and both are
  clamped to the list. \<open>xs[:hi]\<close> is \<open>slice xs 0 hi\<close>.
\<close>

definition clamp_index :: "nat \<Rightarrow> int \<Rightarrow> nat" where
  "clamp_index n k = (if k < 0 then nat (max 0 (int n + k)) else min (nat k) n)"

definition slice :: "'a list \<Rightarrow> int \<Rightarrow> int \<Rightarrow> 'a list" where
  "slice xs lo hi =
     (let l = clamp_index (length xs) lo; h = clamp_index (length xs) hi
      in take (h - l) (drop l xs))"

text \<open>\<open>range(start, stop, step)\<close>: a zero step is \<open>ValueError\<close>.\<close>

function range_up :: "int \<Rightarrow> int \<Rightarrow> int \<Rightarrow> int list" where
  "range_up i stop step = (if 0 < step \<and> i < stop then i # range_up (i + step) stop step else [])"
  by pat_completeness auto
termination
  by (relation "measure (\<lambda>(i, stop, step). nat (stop - i))") auto

function range_down :: "int \<Rightarrow> int \<Rightarrow> int \<Rightarrow> int list" where
  "range_down i stop step =
     (if step < 0 \<and> stop < i then i # range_down (i + step) stop step else [])"
  by pat_completeness auto
termination
  by (relation "measure (\<lambda>(i, stop, step). nat (i - stop))") auto

declare range_up.simps [simp del] range_down.simps [simp del]

definition py_range :: "int \<Rightarrow> int \<Rightarrow> int \<Rightarrow> exn + int list" where
  "py_range start stop step =
     (if step = 0 then Inl ValueError
      else if 0 < step then Inr (range_up start stop step)
      else Inr (range_down start stop step))"

section \<open>JPDBClient\<close>

text \<open>
  A request is the endpoint with its payload. The answer of the service is a JSON object,
  of which the client reads the keys \<open>vocabulary\<close> (a list of lists of integers) and
  \<open>vocabulary_info\<close> (a list); a key may be absent. The service is a function of the
  number of requests sent before and of the request, and \<open>_make_request\<close> either
  returns the parsed answer or raises. The log of the requests sent is the state.
\<close>

datatype request = Deck_list_vocabulary int | Lookup_vocabulary "int list list"

record response =
  vocabulary :: "int list list option"
  vocabulary_info :: "json list option"

type_synonym remote = "nat \<Rightarrow> request \<Rightarrow> exn + response"

definition make_request ::
  "remote \<Rightarrow> request list \<Rightarrow> request \<Rightarrow> request list \<times> (exn + response)" where
  "make_request rm calls req = (calls @ [req], rm (length calls) req)"

definition list_deck_vocabulary ::
  "remote \<Rightarrow> request list \<Rightarrow> int \<Rightarrow> request list \<times> (exn + int list list)" where
  "list_deck_vocabulary rm calls deck_id =
     (case make_request rm calls (Deck_list_vocabulary deck_id) of
        (calls', Inl e) \<Rightarrow> (calls', Inl e)
      | (calls', Inr result) \<Rightarrow>
          (calls', case vocabulary result of None \<Rightarrow> Inl KeyError | Some v \<Rightarrow> Inr v))"

definition lookup_vocabulary ::
  "remote \<Rightarrow> request list \<Rightarrow> int list list \<Rightarrow> request list \<times> (exn + json list)" where
  "lookup_vocabulary rm calls vocab_list =
     (case make_request rm calls (Lookup_vocabulary vocab_list) of
        (calls', Inl e) \<Rightarrow> (calls', Inl e)
      | (calls', Inr result) \<Rightarrow>
          (calls', Inr (case vocabulary_info result of None \<Rightarrow> [] | Some info \<Rightarrow> info)))"

text \<open>The inner loop of \<open>get_deck_cards\<close>, which builds \<open>valid_batch\<close> from a batch.\<close>

fun valid_entries :: "int list list \<Rightarrow> int list list" where
  "valid_entries [] = []"
| "valid_entries (vocab_ids # batch) =
     (if vocab_ids \<noteq> [] \<and> 1 \<le> length vocab_ids then
        (if length vocab_ids = 1 then [vocab_ids ! 0, vocab_ids ! 0]
         else [vocab_ids ! 0, vocab_ids ! 1]) # valid_entries batch
      else valid_entries batch)"

text \<open>The outer loop, over the indices \<open>range(0, len(vocab_list), batch_size)\<close>.\<close>

fun lookup_batches ::
  "remote \<Rightarrow> int list list \<Rightarrow> int \<Rightarrow> request list \<Rightarrow> json list \<Rightarrow> int list
     \<Rightarrow> request list \<times> (exn + json list)" where
  "lookup_batches rm vocab_list batch_size calls cards [] = (calls, Inr cards)"
| "lookup_batches rm vocab_list batch_size calls cards (i # idx) =
     (let batch = slice vocab_list i (i + batch_size);
          valid_batch = valid_entries batch
      in if valid_batch \<noteq> [] then
           (case lookup_vocabulary rm calls valid_batch of
              (calls', Inl e) \<Rightarrow> (calls', Inl e)
            | (calls', Inr vocab_info_list) \<Rightarrow>
                lookup_batches rm vocab_list batch_size calls' (cards @ vocab_info_list) idx)
         else lookup_batches rm vocab_list batch_size calls cards idx)"

definition get_deck_cards ::
  "remote \<Rightarrow> request list \<Rightarrow> int \<Rightarrow> int \<Rightarrow> int \<Rightarrow> request list \<times> (exn + json list)" where
  "get_deck_cards rm calls deck_id limit batch_size =
     (case list_deck_vocabulary rm calls deck_id of
        (calls1, Inl e) \<Rightarrow> (calls1, Inl e)
      | (calls1, Inr listed) \<Rightarrow>
          (let vocab_list = slice listed 0 limit
           in case py_range 0 (int (length vocab_list)) batch_size of
                Inl e \<Rightarrow> (calls1, Inl e)
              | Inr idx \<Rightarrow> lookup_batches rm vocab_list batch_size calls1 [] idx))"

section \<open>The collection\<close>

text \<open>
  Modelled from the spec: the collection behind \<open>mw.col\<close> belongs to the host application
  and is not part of the sources. It is the store of section 6 of the specification:
  \<open>decks.id\<close> is the idempotent get-or-create of a deck by name, \<open>models.by_name\<close> finds a
  note type or gives \<open>None\<close>, \<open>Note\<close> makes a note with one empty field per field of its
  note type, \<open>addNote\<close> files the note, and \<open>reset\<close> refreshes the view.
\<close>

record notetype =
  nt_name :: pystr
  nt_flds :: "pystr list"
  nt_did :: nat

record anki_note =
  note_model :: notetype
  note_fields :: "json list"

record collection =
  col_decks :: "(pystr \<times> nat) list"
  col_models :: "notetype list"
  col_notes :: "anki_note list"
  col_resets :: nat

definition decks_id :: "collection \<Rightarrow> pystr \<Rightarrow> collection \<times> nat" where
  "decks_id c name =
     (case map_of (col_decks c) name of
        Some d \<Rightarrow> (c, d)
      | None \<Rightarrow>
          (let d = Suc (fold max (map snd (col_decks c)) 0)
           in (c\<lparr>col_decks := col_decks c @ [(name, d)]\<rparr>, d)))"

definition by_name :: "collection \<Rightarrow> pystr \<Rightarrow> notetype option" where
  "by_name c name = find (\<lambda>m. nt_name m = name) (col_models c)"

definition new_note :: "notetype \<Rightarrow> anki_note" where
  "new_note m = \<lparr>note_model = m, note_fields = replicate (length (nt_flds m)) (JStr [])\<rparr>"

definition addNote :: "collection \<Rightarrow> anki_note \<Rightarrow> collection" where
  "addNote c n = c\<lparr>col_notes := col_notes c @ [n]\<rparr>"

definition reset :: "collection \<Rightarrow> collection" where
  "reset c = c\<lparr>col_resets := Suc (col_resets c)\<rparr>"

section \<open>JPDBImportDialog.import\_cards\<close>

text \<open>
  The state of the dialog that \<open>import_cards\<close> reads, and what it shows: the lines appended
  to the status area and the message boxes, each kept with the values formatted into it.
  The call of \<open>print\<close> in the loop is left out.
\<close>

record dialog_inputs =
  deck_combo_count :: nat
  deck_combo_data :: int
  api_key_text :: pystr
  anki_deck_text :: pystr
  note_type_text :: pystr

datatype status_line =
    Starting_import
  | Fetching_cards
  | Retrieved_cards nat
  | Import_complete
  | Imported_line nat
  | Skipped_line nat
  | Error_during_import exn

datatype message =
    Warn_load_decks_first
  | Warn_enter_deck_name
  | Warn_note_type_not_found pystr
  | Warn_import_failed exn
  | Info_imported nat pystr

record config =
  api_key :: pystr
  deck_name :: pystr
  note_type :: pystr

record world =
  calls :: "request list"
  col :: collection
  status_text :: "status_line list"
  shown :: "message list"
  saved :: "config option"

text \<open>\<open>str.strip()\<close>: the white space of Python's \<open>str.isspace\<close>.\<close>

definition py_isspace :: "nat \<Rightarrow> bool" where
  "py_isspace c =
     (c \<in> set [9, 10, 11, 12, 13, 28, 29, 30, 31, 32, 133, 160, 5760, 8232, 8233, 8239, 8287, 12288]
      \<or> (8192 \<le> c \<and> c \<le> 8202))"

definition strip :: "pystr \<Rightarrow> pystr" where
  "strip s = rev (dropWhile py_isspace (rev (dropWhile py_isspace s)))"

definition save_settings :: "dialog_inputs \<Rightarrow> world \<Rightarrow> world" where
  "save_settings ui w =
     w\<lparr>saved := Some \<lparr>api_key = strip (api_key_text ui),
                        deck_name = strip (anki_deck_text ui),
                        note_type = note_type_text ui\<rparr>\<rparr>"

text \<open>The body of the loop over the cards, with the counters and the collection as state.\<close>

record loop_state =
  ls_col :: collection
  imported :: nat
  skipped :: nat

text \<open>\<open>arr[0] if arr else ''\<close>\<close>

definition first_or_empty :: "json \<Rightarrow> exn + json" where
  "first_or_empty arr = (if truthy arr then getitem arr 0 else Inr (JStr []))"

text \<open>\<open>', '.join([str(m) for m in meanings_arr]) if meanings_arr else ''\<close>\<close>

definition meaning_text_of :: "(pystr \<Rightarrow> pystr) \<Rightarrow> json \<Rightarrow> exn + pystr" where
  "meaning_text_of R meanings_arr =
     (if truthy meanings_arr then
        (case iter_json meanings_arr of
           Inl e \<Rightarrow> Inl e
         | Inr ms \<Rightarrow> Inr (join (ustr '', '') (map (py_str R) ms)))
      else Inr [])"

text \<open>Lines 301 to 310: the fields of the new note.\<close>

definition fill_fields :: "(pystr \<Rightarrow> pystr) \<Rightarrow> anki_note \<Rightarrow> json \<Rightarrow> json \<Rightarrow> pystr \<Rightarrow> exn + anki_note" where
  "fill_fields R n spelling reading meaning_text =
     (let fields = note_fields n
      in if 2 \<le> length fields then
           (let front = py_str R spelling;
                front' = (if truthy reading \<and> \<not> py_eq reading spelling
                          then front @ ustr '' ('' @ py_str R reading @ ustr '')''
                          else front)
            in Inr (n\<lparr>note_fields := fields[0 := JStr front', 1 := JStr meaning_text]\<rparr>))
         else if 0 < length fields then Inr (n\<lparr>note_fields := fields[0 := spelling]\<rparr>)
         else Inl IndexError)"

definition import_card ::
  "(pystr \<Rightarrow> pystr) \<Rightarrow> notetype \<Rightarrow> nat \<Rightarrow> loop_state \<Rightarrow> json \<Rightarrow> exn + loop_state" where
  "import_card R ntype deck_id_anki st card_data =
     (if \<not> truthy card_data then Inr (st\<lparr>skipped := skipped st + 1\<rparr>)
      else case getitem card_data 0 of Inl e \<Rightarrow> Inl e | Inr spelling_arr \<Rightarrow>
       (case getitem card_data 1 of Inl e \<Rightarrow> Inl e | Inr reading_arr \<Rightarrow>
       (case getitem card_data 2 of Inl e \<Rightarrow> Inl e | Inr meanings_arr \<Rightarrow>
          if \<not> truthy spelling_arr then Inr (st\<lparr>skipped := skipped st + 1\<rparr>)
          else case first_or_empty spelling_arr of Inl e \<Rightarrow> Inl e | Inr spelling \<Rightarrow>
           (case first_or_empty reading_arr of Inl e \<Rightarrow> Inl e | Inr reading \<Rightarrow>
           (case meaning_text_of R meanings_arr of Inl e \<Rightarrow> Inl e | Inr meaning_text \<Rightarrow>
           (case fill_fields R (new_note (ntype\<lparr>nt_did := deck_id_anki\<rparr>))
                   spelling reading meaning_text of
              Inl e \<Rightarrow> Inl e
            | Inr n \<Rightarrow> Inr (st\<lparr>ls_col := addNote (ls_col st) n,
                                imported := imported st + 1\<rparr>)))))))"

text \<open>
  The loop: an exception leaves it at once, with the state reached before the card that
  raised.
\<close>

fun write_loop ::
  "(pystr \<Rightarrow> pystr) \<Rightarrow> notetype \<Rightarrow> nat \<Rightarrow> loop_state \<Rightarrow> json list
     \<Rightarrow> loop_state \<times> exn option" where
  "write_loop R ntype deck_id_anki st [] = (st, None)"
| "write_loop R ntype deck_id_anki st (card_data # cards) =
     (case import_card R ntype deck_id_anki st card_data of
        Inl e \<Rightarrow> (st, Some e)
      | Inr st' \<Rightarrow> write_loop R ntype deck_id_anki st' cards)"

text \<open>The \<open>try\<close> block: the world it leaves, and the exception it raised, if any.\<close>

definition import_try ::
  "(pystr \<Rightarrow> pystr) \<Rightarrow> remote \<Rightarrow> int \<Rightarrow> pystr \<Rightarrow> pystr \<Rightarrow> world \<Rightarrow> world \<times> exn option" where
  "import_try R rm deck_id dname note_type_name w =
     (let w1 = w\<lparr>status_text := status_text w @ [Fetching_cards]\<rparr>
      in case get_deck_cards rm (calls w1) deck_id 1000 100 of
           (calls', Inl e) \<Rightarrow> (w1\<lparr>calls := calls'\<rparr>, Some e)
         | (calls', Inr cards) \<Rightarrow>
             (let w2 = w1\<lparr>calls := calls',
                         status_text := status_text w1 @ [Retrieved_cards (length cards)]\<rparr>;
                  (c, deck_id_anki) = decks_id (col w2) dname;
                  w3 = w2\<lparr>col := c\<rparr>
              in case by_name c note_type_name of
                   None \<Rightarrow> (w3\<lparr>shown := shown w3 @ [Warn_note_type_not_found note_type_name]\<rparr>, None)
                 | Some ntype \<Rightarrow>
                     (case write_loop R ntype deck_id_anki
                             \<lparr>ls_col = c, imported = 0, skipped = 0\<rparr> cards of
                        (st, Some e) \<Rightarrow> (w3\<lparr>col := ls_col st\<rparr>, Some e)
                      | (st, None) \<Rightarrow>
                          (w3\<lparr>col := reset (ls_col st),
                              status_text := status_text w3 @
                                [Import_complete, Imported_line (imported st),
                                 Skipped_line (skipped st)],
                              shown := shown w3 @ [Info_imported (imported st) dname]\<rparr>,
                           None))))"

definition import_cards ::
  "(pystr \<Rightarrow> pystr) \<Rightarrow> remote \<Rightarrow> dialog_inputs \<Rightarrow> world \<Rightarrow> world" where
  "import_cards R rm ui w =
     (if deck_combo_count ui = 0 then w\<lparr>shown := shown w @ [Warn_load_decks_first]\<rparr>
      else
        (let dname = strip (anki_deck_text ui)
         in if dname = [] then w\<lparr>shown := shown w @ [Warn_enter_deck_name]\<rparr>
            else
              (let w1 = save_settings ui w;
                   w2 = w1\<lparr>status_text := status_text w1 @ [Starting_import]\<rparr>
               in case import_try R rm (deck_combo_data ui) dname (note_type_text ui) w2 of
                    (w', None) \<Rightarrow> w'
                  | (w', Some e) \<Rightarrow>
                      w'\<lparr>status_text := status_text w' @ [Error_during_import e],
                         shown := shown w' @ [Warn_import_failed e]\<rparr>)))"

section \<open>Notions for the properties\<close>

text \<open>
  The batches that the loop of \<open>get_deck_cards\<close> cuts: the slice at each index of the range.
  The payloads are the normalised batches that are not empty, the ones the loop sends.
\<close>

definition batches :: "'a list \<Rightarrow> int \<Rightarrow> 'a list list" where
  "batches v bs = map (\<lambda>i. slice v i (i + bs)) (range_up 0 (int (length v)) bs)"

definition payloads :: "int list list \<Rightarrow> int \<Rightarrow> int list list list" where
  "payloads v bs = filter (\<lambda>b. b \<noteq> []) (map valid_entries (batches v bs))"

text \<open>
  What \<open>lookup_vocabulary\<close> makes of an answer: the \<open>vocabulary_info\<close> list, or the empty
  list when the key is absent; and the service that gives at most one record per pair.
\<close>

definition info_of :: "exn + response \<Rightarrow> json list" where
  "info_of a = (case a of Inl e \<Rightarrow> [] | Inr r \<Rightarrow> (case vocabulary_info r of None \<Rightarrow> [] | Some i \<Rightarrow> i))"

definition one_record_per_pair :: "remote \<Rightarrow> bool" where
  "one_record_per_pair rm =
     (\<forall>n l. length (info_of (rm n (Lookup_vocabulary l))) \<le> length l)"

text \<open>Sending a list of payloads one after the other, up to the first that fails.\<close>

fun send_all ::
  "remote \<Rightarrow> request list \<Rightarrow> json list \<Rightarrow> int list list list
     \<Rightarrow> request list \<times> (exn + json list)" where
  "send_all rm cs cards [] = (cs, Inr cards)"
| "send_all rm cs cards (p # ps) =
     (case lookup_vocabulary rm cs p of
        (cs', Inl e) \<Rightarrow> (cs', Inl e)
      | (cs', Inr info) \<Rightarrow> send_all rm cs' (cards @ info) ps)"

text \<open>
  Services for the examples: a deck of 250 id pairs whose second lookup fails, a deck of
  one empty entry, and a small deck with every shape of entry.
\<close>

definition ids_250 :: "int list list" where
  "ids_250 = map (\<lambda>i. [i, i + 1]) [1..250]"

definition remote_250 :: remote where
  "remote_250 n req =
     (if n = 0 then Inr \<lparr>vocabulary = Some ids_250, vocabulary_info = None\<rparr>
      else if n = 1 then Inr \<lparr>vocabulary = None, vocabulary_info = Some (replicate 100 JNull)\<rparr>
      else Inl (Exception (ustr ''HTTP 500: '')))"

definition remote_blank :: remote where
  "remote_blank n req = Inr \<lparr>vocabulary = Some [[]], vocabulary_info = None\<rparr>"

definition ids_small :: "int list list" where
  "ids_small = [[1], [], [2, 3], [4, 5, 6], [7]]"

definition remote_small :: remote where
  "remote_small n req =
     (case req of
        Deck_list_vocabulary d \<Rightarrow> Inr \<lparr>vocabulary = Some ids_small, vocabulary_info = None\<rparr>
      | Lookup_vocabulary l \<Rightarrow>
          Inr \<lparr>vocabulary = None, vocabulary_info = Some (map (\<lambda>p. JArr (map JInt p)) l)\<rparr>)"

text \<open>
  Note types, records and a collection for the examples. The first record is the
  spelling U+98DF U+3079 U+308B with the reading U+305F U+3079 U+308B; the second has the
  same spelling and reading.
\<close>

definition basic_notetype :: notetype where
  "basic_notetype = \<lparr>nt_name = ustr ''Basic'', nt_flds = [ustr ''Front'', ustr ''Back''], nt_did = 0\<rparr>"

definition three_field_notetype :: notetype where
  "three_field_notetype =
     \<lparr>nt_name = ustr ''Three'', nt_flds = [ustr ''Front'', ustr ''Back'', ustr ''Extra''], nt_did = 0\<rparr>"

definition single_notetype :: notetype where
  "single_notetype = \<lparr>nt_name = ustr ''Single'', nt_flds = [ustr ''Text''], nt_did = 0\<rparr>"

definition taberu :: json where
  "taberu = JArr [JArr [JStr [39135, 12409, 12427]], JArr [JStr [12383, 12409, 12427]],
                  JArr [JStr (ustr ''to eat''), JStr (ustr ''to dine'')]]"

definition kana_only :: json where
  "kana_only = JArr [JArr [JStr [12383, 12409, 12427]], JArr [JStr [12383, 12409, 12427]], JArr []]"

definition start_collection :: collection where
  "start_collection =
     \<lparr>col_decks = [], col_models = [basic_notetype, single_notetype], col_notes = [],
      col_resets = 0\<rparr>"

definition start_state :: loop_state where
  "start_state = \<lparr>ls_col = start_collection, imported = 0, skipped = 0\<rparr>"

text \<open>
  A dialog with its inputs filled in, the same with a note type that does not exist, a
  world in which nothing has happened yet, and a service that lists two ids and answers
  any lookup with the given records.
\<close>

definition ui_basic :: dialog_inputs where
  "ui_basic = \<lparr>deck_combo_count = 1, deck_combo_data = 7, api_key_text = ustr ''key'',
                anki_deck_text = ustr '' JPDB '', note_type_text = ustr ''Basic''\<rparr>"

definition ui_missing :: dialog_inputs where
  "ui_missing = ui_basic\<lparr>note_type_text := ustr ''Missing''\<rparr>"

definition start_world :: world where
  "start_world = \<lparr>calls = [], col = start_collection, status_text = [], shown = [], saved = None\<rparr>"

definition remote_cards :: "json list \<Rightarrow> remote" where
  "remote_cards cards n req =
     (case req of
        Deck_list_vocabulary d \<Rightarrow> Inr \<lparr>vocabulary = Some [[1], [2]], vocabulary_info = None\<rparr>
      | Lookup_vocabulary l \<Rightarrow> Inr \<lparr>vocabulary = None, vocabulary_info = Some cards\<rparr>)"

section \<open>The requests of the lookup loop\<close>

lemma lookup_vocabulary_eq:
  "lookup_vocabulary rm cs p =
     (cs @ [Lookup_vocabulary p],
      case rm (length cs) (Lookup_vocabulary p) of Inl e \<Rightarrow> Inl e | Inr r \<Rightarrow> Inr (info_of (Inr r)))"
  by (simp add: lookup_vocabulary_def make_request_def info_of_def split: sum.splits)

lemma lookup_batches_send_all:
  "lookup_batches rm v bs cs cards idx =
     send_all rm cs cards (filter (\<lambda>b. b \<noteq> []) (map (\<lambda>i. valid_entries (slice v i (i + bs))) idx))"
  by (induction idx arbitrary: cs cards) (simp_all add: Let_def split: prod.splits sum.splits)

lemma map_upt_Suc_shift: "map f [0..<Suc n] = f 0 # map (\<lambda>k. f (Suc k)) [0..<n]"
  by (simp add: upt_conv_Cons map_Suc_upt [symmetric] del: upt_Suc)

lemma send_all_ok:
  "(\<forall>k < length ps. \<exists>r. rm (length cs + k) (Lookup_vocabulary (ps ! k)) = Inr r) \<Longrightarrow>
   send_all rm cs cards ps =
     (cs @ map Lookup_vocabulary ps,
      Inr (cards @ concat (map (\<lambda>k. info_of (rm (length cs + k) (Lookup_vocabulary (ps ! k)))) [0..<length ps])))"
proof (induction ps arbitrary: cs cards)
  case Nil
  then show ?case by simp
next
  case (Cons p ps)
  from Cons.prems obtain r where r: "rm (length cs) (Lookup_vocabulary p) = Inr r"
    by fastforce
  have rest: "\<forall>k < length ps. \<exists>r. rm (length (cs @ [Lookup_vocabulary p]) + k) (Lookup_vocabulary (ps ! k)) = Inr r"
    using Cons.prems by fastforce
  show ?case
    using Cons.IH [OF rest] by (simp add: lookup_vocabulary_eq r map_upt_Suc_shift del: upt_Suc)
qed

lemma send_all_fails:
  "k < length ps \<Longrightarrow>
   (\<forall>j < k. \<exists>r. rm (length cs + j) (Lookup_vocabulary (ps ! j)) = Inr r) \<Longrightarrow>
   rm (length cs + k) (Lookup_vocabulary (ps ! k)) = Inl e \<Longrightarrow>
   send_all rm cs cards ps = (cs @ map Lookup_vocabulary (take (Suc k) ps), Inl e)"
proof (induction ps arbitrary: cs cards k)
  case Nil
  then show ?case by simp
next
  case (Cons p ps)
  show ?case
  proof (cases k)
    case 0
    with Cons.prems show ?thesis by (simp add: lookup_vocabulary_eq)
  next
    case (Suc k')
    from Cons.prems Suc obtain r where r: "rm (length cs) (Lookup_vocabulary p) = Inr r"
      by fastforce
    have a: "k' < length ps" using Cons.prems Suc by simp
    have b: "\<forall>j < k'. \<exists>r. rm (length (cs @ [Lookup_vocabulary p]) + j) (Lookup_vocabulary (ps ! j)) = Inr r"
      using Cons.prems(2) Suc by fastforce
    have c: "rm (length (cs @ [Lookup_vocabulary p]) + k') (Lookup_vocabulary (ps ! k')) = Inl e"
      using Cons.prems(3) Suc by simp
    show ?thesis
      using Cons.IH [OF a b c] Suc by (simp add: lookup_vocabulary_eq r)
  qed
qed

lemma send_all_calls:
  "\<exists>k. fst (send_all rm cs cards ps) = cs @ map Lookup_vocabulary (take k ps)"
proof (induction ps arbitrary: cs cards)
  case Nil
  then show ?case by simp
next
  case (Cons p ps)
  show ?case
  proof (cases "rm (length cs) (Lookup_vocabulary p)")
    case (Inl e)
    then have "fst (send_all rm cs cards (p # ps)) = cs @ map Lookup_vocabulary (take (Suc 0) (p # ps))"
      by (simp add: lookup_vocabulary_eq)
    then show ?thesis by blast
  next
    case (Inr r)
    obtain k where "fst (send_all rm (cs @ [Lookup_vocabulary p]) (cards @ info_of (Inr r)) ps)
        = (cs @ [Lookup_vocabulary p]) @ map Lookup_vocabulary (take k ps)"
      using Cons.IH by blast
    then have "fst (send_all rm cs cards (p # ps)) = cs @ map Lookup_vocabulary (take (Suc k) (p # ps))"
      by (simp add: lookup_vocabulary_eq Inr)
    then show ?thesis by blast
  qed
qed

lemma send_all_result:
  "snd (send_all rm cs cards ps) = Inr out \<Longrightarrow>
   out = cards @ concat (map (\<lambda>k. info_of (rm (length cs + k) (Lookup_vocabulary (ps ! k)))) [0..<length ps])"
proof (induction ps arbitrary: cs cards)
  case Nil
  then show ?case by simp
next
  case (Cons p ps)
  show ?case
  proof (cases "rm (length cs) (Lookup_vocabulary p)")
    case (Inl e)
    with Cons.prems show ?thesis by (simp add: lookup_vocabulary_eq)
  next
    case (Inr r)
    with Cons.prems have "snd (send_all rm (cs @ [Lookup_vocabulary p]) (cards @ info_of (Inr r)) ps) = Inr out"
      by (simp add: lookup_vocabulary_eq)
    from Cons.IH [OF this] show ?thesis
      by (simp add: Inr map_upt_Suc_shift del: upt_Suc)
  qed
qed

lemma send_all_length:
  "one_record_per_pair rm \<Longrightarrow> snd (send_all rm cs cards ps) = Inr out \<Longrightarrow>
   length out \<le> length cards + sum_list (map length ps)"
proof (induction ps arbitrary: cs cards)
  case Nil
  then show ?case by simp
next
  case (Cons p ps)
  show ?case
  proof (cases "rm (length cs) (Lookup_vocabulary p)")
    case (Inl e)
    with Cons.prems show ?thesis by (simp add: lookup_vocabulary_eq)
  next
    case (Inr r)
    with Cons.prems have "snd (send_all rm (cs @ [Lookup_vocabulary p]) (cards @ info_of (Inr r)) ps) = Inr out"
      by (simp add: lookup_vocabulary_eq)
    from Cons.IH [OF Cons.prems(1) this]
    have "length out \<le> length cards + length (info_of (Inr r)) + sum_list (map length ps)"
      by simp
    moreover have "length (info_of (Inr r)) \<le> length p"
      using Cons.prems(1) Inr unfolding one_record_per_pair_def by metis
    ultimately show ?thesis by simp
  qed
qed

section \<open>Slices, ranges and batches\<close>

lemma slice_nonneg:
  "0 \<le> lo \<Longrightarrow> lo \<le> hi \<Longrightarrow> slice xs lo hi = take (nat (hi - lo)) (drop (nat lo) xs)"
  by (auto simp: slice_def clamp_index_def Let_def min_def nat_diff_distrib)

lemma slice_limit: "0 \<le> limit \<Longrightarrow> slice xs 0 limit = take (nat limit) xs"
  by (simp add: slice_nonneg)

lemma range_up_bounds:
  "j \<in> set (range_up i stop step) \<Longrightarrow> i \<le> j \<and> j < stop \<and> 0 < step"
proof (induction i stop step rule: range_up.induct)
  case (1 i stop step)
  then show ?case
    by (subst (asm) (2) range_up.simps) (auto split: if_splits)
qed

lemma concat_batches_from:
  "0 \<le> i \<Longrightarrow> 0 < bs \<Longrightarrow>
   concat (map (\<lambda>j. slice v j (j + bs)) (range_up i (int (length v)) bs)) = drop (nat i) v"
proof (induction i "int (length v)" bs rule: range_up.induct)
  case (1 i step)
  show ?case
  proof (cases "i < int (length v)")
    case True
    have "nat (i + step) = nat i + nat step"
      using 1(2,3) by (simp add: nat_add_distrib)
    then have "drop (nat (i + step)) v = drop (nat step) (drop (nat i) v)"
      by (simp add: add.commute)
    moreover have "take (nat step) (drop (nat i) v) @ drop (nat step) (drop (nat i) v) = drop (nat i) v"
      by (rule append_take_drop_id)
    ultimately show ?thesis
      using True 1 by (subst range_up.simps) (simp add: slice_nonneg del: drop_drop)
  next
    case False
    then show ?thesis
      using 1(2) by (subst range_up.simps) simp
  qed
qed

lemma concat_batches: "0 < bs \<Longrightarrow> concat (batches v bs) = v"
  using concat_batches_from [of 0 bs v] by (simp add: batches_def)

lemma batch_size_bound:
  assumes "b \<in> set (batches v bs)"
  shows "b \<noteq> [] \<and> int (length b) \<le> bs"
proof -
  from assms obtain j where j: "j \<in> set (range_up 0 (int (length v)) bs)" and b: "b = slice v j (j + bs)"
    by (auto simp: batches_def)
  from range_up_bounds [OF j] have "0 \<le> j" "j < int (length v)" "0 < bs" by simp_all
  then show ?thesis
    unfolding b by (auto simp: slice_nonneg)
qed

lemma length_valid_entries: "length (valid_entries b) \<le> length b"
  by (induction b) auto

lemma length_valid_entries_all:
  "\<forall>e \<in> set b. e \<noteq> [] \<Longrightarrow> length (valid_entries b) = length b"
  by (induction b) (auto simp: Suc_le_eq)

lemma valid_entries_pairs: "e \<in> set (valid_entries b) \<Longrightarrow> length e = 2"
  by (induction b) (auto split: if_splits)

lemma sum_list_filter_le: "sum_list (map f (filter P xs)) \<le> (sum_list (map f xs) :: nat)"
  by (induction xs) auto

lemma sum_length_payloads: "0 < bs \<Longrightarrow> sum_list (map length (payloads v bs)) \<le> length v"
proof -
  assume bs: "0 < bs"
  have "sum_list (map length (payloads v bs)) \<le> sum_list (map length (map valid_entries (batches v bs)))"
    unfolding payloads_def by (rule sum_list_filter_le)
  also have "\<dots> \<le> sum_list (map length (batches v bs))"
    unfolding map_map by (rule sum_list_mono) (simp add: length_valid_entries)
  also have "\<dots> = length (concat (batches v bs))"
    by (simp add: length_concat)
  finally show ?thesis by (simp add: concat_batches [OF bs])
qed

lemma get_deck_cards_send_all:
  assumes "rm (length cs) (Deck_list_vocabulary d) = Inr r" and "vocabulary r = Some listed"
    and "0 < bs"
  shows "get_deck_cards rm cs d limit bs =
     send_all rm (cs @ [Deck_list_vocabulary d]) [] (payloads (slice listed 0 limit) bs)"
  using assms
  by (simp add: get_deck_cards_def list_deck_vocabulary_def make_request_def py_range_def
      lookup_batches_send_all payloads_def batches_def comp_def Let_def)

lemma payloads_250:
  assumes "length listed = 250" and "\<forall>v \<in> set listed. v \<noteq> []"
  shows "map length (payloads (slice listed 0 1000) 100) = [100, 100, 50]"
proof -
  have v: "slice listed 0 1000 = listed"
    using assms(1) by (simp add: slice_limit)
  have r: "range_up 0 250 100 = [0, 100, 200]"
    by (simp add: range_up.simps)
  have b: "batches listed 100 = [take 100 listed, take 100 (drop 100 listed), take 100 (drop 200 listed)]"
    using assms(1) by (simp add: batches_def r slice_nonneg)
  have ne: "\<forall>e \<in> set (take n (drop m listed)). e \<noteq> []" for n m
    using assms(2) by (meson in_set_dropD in_set_takeD)
  have l: "length (valid_entries (take n (drop m listed))) = length (take n (drop m listed))" for n m
    by (rule length_valid_entries_all) (rule ne)
  have l0: "length (valid_entries (take 100 listed)) = 100"
    using l [of 100 0] assms(1) by simp
  have l1: "length (valid_entries (take 100 (drop 100 listed))) = 100"
    using l [of 100 100] assms(1) by simp
  have l2: "length (valid_entries (take 100 (drop 200 listed))) = 50"
    using l [of 100 200] assms(1) by simp
  have n0: "valid_entries (take 100 listed) \<noteq> []" using l0 by auto
  have n1: "valid_entries (take 100 (drop 100 listed)) \<noteq> []" using l1 by auto
  have n2: "valid_entries (take 100 (drop 200 listed)) \<noteq> []" using l2 by auto
  show ?thesis
    unfolding v payloads_def b by (simp add: n0 n1 n2 l0 l1 l2)
qed

lemma get_deck_cards_small:
  "get_deck_cards remote_small [] 7 4 2 =
     ([Deck_list_vocabulary 7, Lookup_vocabulary [[1, 1]], Lookup_vocabulary [[2, 3], [4, 5]]],
      Inr [JArr [JInt 1, JInt 1], JArr [JInt 2, JInt 3], JArr [JInt 4, JInt 5]])"
  by (simp add: get_deck_cards_def list_deck_vocabulary_def lookup_vocabulary_def make_request_def
      remote_small_def ids_small_def py_range_def range_up.simps slice_def clamp_index_def)

section \<open>One lookup for each batch that has an entry\<close>

text \<open>
  C3, as the claim states it: one lookup for every chunk. It fails on a deck whose only
  entry is empty: the retained list is one chunk, and the loop sends no lookup for it,
  since \<open>valid_batch\<close> is empty.
\<close>

theorem one_call_per_chunk_counterexample:
  "batches (slice [[]] 0 1000) 100 = [[[] :: int list]] \<and>
   get_deck_cards remote_blank [] 7 1000 100 = ([Deck_list_vocabulary 7], Inr [])"
  by (simp add: batches_def slice_def clamp_index_def range_up.simps get_deck_cards_def
      list_deck_vocabulary_def make_request_def remote_blank_def py_range_def)

text \<open>
  C3, amended: once the vocabulary of the deck is listed, \<open>get_deck_cards\<close> sends one lookup
  for each chunk of the retained list that has a non-empty entry, in the order of the
  chunks, each with the normalised entries of its chunk. When every lookup succeeds these
  are all the requests; when lookup \<open>k\<close> is the first to fail, the requests end with it
  and the failure is the result. For 250 non-empty entries, a limit of 1000 and batches of
  100 there are three payloads, of 100, 100 and 50 pairs.
\<close>

theorem lookup_calls_per_batch:
  assumes "rm (length cs) (Deck_list_vocabulary d) = Inr r" and "vocabulary r = Some listed"
    and "0 < bs" and "ps = payloads (slice listed 0 limit) bs"
  shows
    "((\<forall>k < length ps. \<exists>a. rm (Suc (length cs) + k) (Lookup_vocabulary (ps ! k)) = Inr a) \<longrightarrow>
        fst (get_deck_cards rm cs d limit bs) =
          cs @ Deck_list_vocabulary d # map Lookup_vocabulary ps \<and>
        (\<exists>cards. snd (get_deck_cards rm cs d limit bs) = Inr cards)) \<and>
     (\<forall>k < length ps. \<forall>e.
        (\<forall>j < k. \<exists>a. rm (Suc (length cs) + j) (Lookup_vocabulary (ps ! j)) = Inr a) \<and>
        rm (Suc (length cs) + k) (Lookup_vocabulary (ps ! k)) = Inl e \<longrightarrow>
        get_deck_cards rm cs d limit bs =
          (cs @ Deck_list_vocabulary d # map Lookup_vocabulary (take (Suc k) ps), Inl e)) \<and>
     (length listed = 250 \<and> (\<forall>v \<in> set listed. v \<noteq> []) \<and> limit = 1000 \<and> bs = 100 \<longrightarrow>
        map length ps = [100, 100, 50])"
proof -
  have gdc: "get_deck_cards rm cs d limit bs = send_all rm (cs @ [Deck_list_vocabulary d]) [] ps"
    using get_deck_cards_send_all [of rm cs d r listed bs limit] assms by simp
  have ok: "fst (get_deck_cards rm cs d limit bs) =
          cs @ Deck_list_vocabulary d # map Lookup_vocabulary ps \<and>
        (\<exists>cards. snd (get_deck_cards rm cs d limit bs) = Inr cards)"
    if "\<forall>k < length ps. \<exists>a. rm (Suc (length cs) + k) (Lookup_vocabulary (ps ! k)) = Inr a"
  proof -
    from that have "\<forall>k < length ps. \<exists>a.
        rm (length (cs @ [Deck_list_vocabulary d]) + k) (Lookup_vocabulary (ps ! k)) = Inr a"
      by simp
    from send_all_ok [OF this] show ?thesis
      unfolding gdc by simp
  qed
  have bad: "get_deck_cards rm cs d limit bs =
          (cs @ Deck_list_vocabulary d # map Lookup_vocabulary (take (Suc k) ps), Inl e)"
    if "k < length ps"
      and "\<forall>j < k. \<exists>a. rm (Suc (length cs) + j) (Lookup_vocabulary (ps ! j)) = Inr a"
      and "rm (Suc (length cs) + k) (Lookup_vocabulary (ps ! k)) = Inl e" for k e
  proof -
    from that(2) have a: "\<forall>j < k. \<exists>a.
        rm (length (cs @ [Deck_list_vocabulary d]) + j) (Lookup_vocabulary (ps ! j)) = Inr a"
      by simp
    from that(3) have b:
      "rm (length (cs @ [Deck_list_vocabulary d]) + k) (Lookup_vocabulary (ps ! k)) = Inl e"
      by simp
    from send_all_fails [OF that(1) a b] show ?thesis
      unfolding gdc by simp
  qed
  have scen: "map length ps = [100, 100, 50]"
    if "length listed = 250" and "\<forall>v \<in> set listed. v \<noteq> []" and "limit = 1000" and "bs = 100"
    using payloads_250 [OF that(1,2)] that(3,4) assms(4) by simp
  show ?thesis
    using ok bad scen by blast
qed

text \<open>
  The deck of 250 pairs, with a service that fails on the second lookup: the third is
  never sent.
\<close>

theorem lookup_calls_per_batch_witness:
  "map length (payloads (slice ids_250 0 1000) 100) = [100, 100, 50] \<and>
   get_deck_cards remote_250 [] 7 1000 100 =
     (Deck_list_vocabulary 7 #
        map Lookup_vocabulary (take 2 (payloads (slice ids_250 0 1000) 100)),
      Inl (Exception (ustr ''HTTP 500: '')))"
proof -
  let ?ps = "payloads (slice ids_250 0 1000) 100"
  let ?r = "\<lparr>vocabulary = Some ids_250, vocabulary_info = None\<rparr>"
  have h1: "remote_250 (length ([] :: request list)) (Deck_list_vocabulary 7) = Inr ?r"
    by (simp add: remote_250_def)
  have h2: "vocabulary ?r = Some ids_250" by simp
  have h3: "(0::int) < 100" by simp
  note T = lookup_calls_per_batch [where rm = remote_250 and cs = "[]" and d = 7 and r = ?r
      and listed = ids_250 and bs = 100 and ps = ?ps and limit = 1000, OF h1 h2 h3 refl]
  have len: "length ids_250 = 250" by (simp add: ids_250_def)
  have ne: "\<forall>v \<in> set ids_250. v \<noteq> []" by (auto simp: ids_250_def)
  from T len ne have lens: "map length ?ps = [100, 100, 50]" by blast
  then have "length (map length ?ps) = 3" by simp
  then have l3: "length ?ps = 3" by simp
  have ok0: "\<forall>j < 1. \<exists>a. remote_250 (Suc (length ([] :: request list)) + j) (Lookup_vocabulary (?ps ! j)) = Inr a"
    by (simp add: remote_250_def)
  have bad1: "remote_250 (Suc (length ([] :: request list)) + 1) (Lookup_vocabulary (?ps ! 1))
      = Inl (Exception (ustr ''HTTP 500: ''))"
    by (simp add: remote_250_def)
  from T l3 ok0 bad1 have "get_deck_cards remote_250 [] 7 1000 100 =
      ([] @ Deck_list_vocabulary 7 # map Lookup_vocabulary (take (Suc 1) ?ps),
       Inl (Exception (ustr ''HTTP 500: '')))"
    by (metis One_nat_def lessI numeral_3_eq_3 Suc_lessI less_Suc_eq)
  then show ?thesis using lens by (simp add: numeral_2_eq_2)
qed

section \<open>Truncation, partition and the length of the result\<close>

text \<open>
  C4: for a limit that is not negative and a positive batch size, the retained list is the
  first \<open>limit\<close> entries of the listed vocabulary; the batches are consecutive, not empty,
  of at most \<open>batch_size\<close> entries, and their concatenation is the retained list. When the
  run succeeds its result is the concatenation of the answers to the payloads (an absent
  \<open>vocabulary_info\<close> counting as empty), and with a service that gives at most one record
  per pair it is no longer than \<open>min (len list) limit\<close>.
\<close>

theorem get_deck_cards_partition:
  assumes "rm (length cs) (Deck_list_vocabulary d) = Inr r" and "vocabulary r = Some listed"
    and "0 \<le> limit" and "0 < bs" and "one_record_per_pair rm"
    and "retained = slice listed 0 limit" and "ps = payloads retained bs"
  shows "retained = take (nat limit) listed \<and>
    concat (batches retained bs) = retained \<and>
    (\<forall>b \<in> set (batches retained bs). b \<noteq> [] \<and> int (length b) \<le> bs) \<and>
    (\<forall>cards. snd (get_deck_cards rm cs d limit bs) = Inr cards \<longrightarrow>
       cards = concat (map (\<lambda>k. info_of (rm (Suc (length cs) + k) (Lookup_vocabulary (ps ! k))))
                          [0..<length ps]) \<and>
       int (length cards) \<le> min (int (length listed)) limit)"
proof -
  have ret: "retained = take (nat limit) listed"
    using assms(3,6) by (simp add: slice_limit)
  have gdc: "get_deck_cards rm cs d limit bs = send_all rm (cs @ [Deck_list_vocabulary d]) [] ps"
    using get_deck_cards_send_all [of rm cs d r listed bs limit] assms by simp
  have len: "int (length cards) \<le> min (int (length listed)) limit"
    if "snd (get_deck_cards rm cs d limit bs) = Inr cards" for cards
  proof -
    from that gdc have "snd (send_all rm (cs @ [Deck_list_vocabulary d]) [] ps) = Inr cards"
      by simp
    from send_all_length [OF assms(5) this] have "length cards \<le> sum_list (map length ps)"
      by simp
    also have "\<dots> \<le> length retained"
      unfolding assms(7) by (rule sum_length_payloads [OF assms(4)])
    finally show ?thesis
      using assms(3) unfolding ret by auto
  qed
  have out: "cards = concat (map (\<lambda>k. info_of (rm (Suc (length cs) + k) (Lookup_vocabulary (ps ! k))))
                          [0..<length ps])"
    if "snd (get_deck_cards rm cs d limit bs) = Inr cards" for cards
  proof -
    from that gdc have "snd (send_all rm (cs @ [Deck_list_vocabulary d]) [] ps) = Inr cards"
      by simp
    from send_all_result [OF this] show ?thesis by simp
  qed
  show ?thesis
    using ret concat_batches [OF assms(4)] batch_size_bound len out by blast
qed

theorem get_deck_cards_partition_witness:
  "one_record_per_pair remote_small \<and>
   slice ids_small 0 4 = take 4 ids_small \<and>
   concat (batches (slice ids_small 0 4) 2) = slice ids_small 0 4 \<and>
   batches (slice ids_small 0 4) 2 = [[[1], []], [[2, 3], [4, 5, 6]]] \<and>
   snd (get_deck_cards remote_small [] 7 4 2) =
     Inr [JArr [JInt 1, JInt 1], JArr [JInt 2, JInt 3], JArr [JInt 4, JInt 5]] \<and>
   int (length [JArr [JInt 1, JInt 1], JArr [JInt 2, JInt 3], JArr [JInt 4, JInt 5]])
     \<le> min (int (length ids_small)) 4"
proof -
  let ?r = "\<lparr>vocabulary = Some ids_small, vocabulary_info = None\<rparr>"
  have h1: "remote_small (length ([] :: request list)) (Deck_list_vocabulary 7) = Inr ?r"
    by (simp add: remote_small_def)
  have h2: "vocabulary ?r = Some ids_small" by simp
  have h3: "(0::int) \<le> 4" and h4: "(0::int) < 2" by simp_all
  have h5: "one_record_per_pair remote_small"
    by (simp add: one_record_per_pair_def remote_small_def info_of_def split: request.splits)
  note T = get_deck_cards_partition [where rm = remote_small and cs = "[]" and d = 7 and r = ?r
      and listed = ids_small and limit = 4 and bs = 2, OF h1 h2 h3 h4 h5 refl refl]
  have b: "batches (slice ids_small 0 4) 2 = [[[1], []], [[2, 3], [4, 5, 6]]]"
    by (simp add: batches_def ids_small_def range_up.simps slice_def clamp_index_def)
  have res: "snd (get_deck_cards remote_small [] 7 4 2) =
      Inr [JArr [JInt 1, JInt 1], JArr [JInt 2, JInt 3], JArr [JInt 4, JInt 5]]"
    by (simp add: get_deck_cards_small)
  note D = T [THEN conjunct2, THEN conjunct2, THEN conjunct2, rule_format, OF res]
  have len: "int (length [JArr [JInt 1, JInt 1], JArr [JInt 2, JInt 3], JArr [JInt 4, JInt 5]])
     \<le> min (int (length ids_small)) 4"
    using D by (rule conjunct2)
  have t1: "slice ids_small 0 4 = take 4 ids_small"
    using T [THEN conjunct1] by simp
  note t2 = T [THEN conjunct2, THEN conjunct1]
  show ?thesis
    using h5 t1 t2 b res len by (intro conjI)
qed

section \<open>The shape of every lookup request\<close>

text \<open>
  C9: whatever the service answers and whatever the limit and the batch size, the requests
  that \<open>get_deck_cards\<close> adds are the listing of the deck followed by lookups only, and
  every lookup carries a list that is not empty, whose entries have exactly two elements.
\<close>

theorem lookup_requests_well_formed:
  "\<exists>ps. fst (get_deck_cards rm cs d limit bs) =
           cs @ Deck_list_vocabulary d # map Lookup_vocabulary ps \<and>
        (\<forall>p \<in> set ps. p \<noteq> [] \<and> (\<forall>e \<in> set p. length e = 2))"
proof -
  have sent: "\<exists>ps. fst (lookup_batches rm v bs (cs @ [Deck_list_vocabulary d]) [] idx) =
           cs @ Deck_list_vocabulary d # map Lookup_vocabulary ps \<and>
        (\<forall>p \<in> set ps. p \<noteq> [] \<and> (\<forall>e \<in> set p. length e = 2))" for v idx
  proof -
    define qs where "qs = filter (\<lambda>b. b \<noteq> []) (map (\<lambda>i. valid_entries (slice v i (i + bs))) idx)"
    obtain k where k: "fst (send_all rm (cs @ [Deck_list_vocabulary d]) [] qs)
        = (cs @ [Deck_list_vocabulary d]) @ map Lookup_vocabulary (take k qs)"
      using send_all_calls by blast
    have "\<forall>p \<in> set (take k qs). p \<noteq> [] \<and> (\<forall>e \<in> set p. length e = 2)"
    proof
      fix p assume "p \<in> set (take k qs)"
      then have "p \<in> set qs" by (rule in_set_takeD)
      then show "p \<noteq> [] \<and> (\<forall>e \<in> set p. length e = 2)"
        unfolding qs_def by (auto dest: valid_entries_pairs)
    qed
    with k show ?thesis
      unfolding lookup_batches_send_all qs_def [symmetric] by auto
  qed
  have none: "\<exists>ps. cs @ [Deck_list_vocabulary d] =
           cs @ Deck_list_vocabulary d # map Lookup_vocabulary ps \<and>
        (\<forall>p \<in> set ps. p \<noteq> [] \<and> (\<forall>e \<in> set p. length e = 2))"
    by (rule exI [of _ "[]"]) simp
  show ?thesis
    using sent none
    by (simp add: get_deck_cards_def list_deck_vocabulary_def make_request_def py_range_def Let_def
        split: sum.splits option.splits)
qed

theorem lookup_requests_well_formed_witness:
  "fst (get_deck_cards remote_small [] 7 4 2) =
     [Deck_list_vocabulary 7, Lookup_vocabulary [[1, 1]], Lookup_vocabulary [[2, 3], [4, 5]]] \<and>
   list_all (\<lambda>p. p \<noteq> [] \<and> list_all (\<lambda>e. length e = 2) p) [[[1, 1]], [[2, 3], [4, 5 :: int]]]"
proof -
  obtain ps where ps: "fst (get_deck_cards remote_small [] 7 4 2) =
        [] @ Deck_list_vocabulary 7 # map Lookup_vocabulary ps"
    and wf: "\<forall>p \<in> set ps. p \<noteq> [] \<and> (\<forall>e \<in> set p. length e = 2)"
    using lookup_requests_well_formed [of remote_small "[]" 7 4 2] by blast
  from ps have "map Lookup_vocabulary ps = map Lookup_vocabulary [[[1, 1]], [[2, 3], [4, 5]]]"
    by (simp add: get_deck_cards_small)
  then have "ps = [[[1, 1]], [[2, 3], [4, 5]]]"
    by (auto simp: map_eq_Cons_conv)
  with wf have "list_all (\<lambda>p. p \<noteq> [] \<and> list_all (\<lambda>e. length e = 2) p) [[[1, 1]], [[2, 3], [4, 5 :: int]]]"
    unfolding list_all_iff by blast
  then show ?thesis by (simp add: get_deck_cards_small)
qed

section \<open>Normalisation of the id entries\<close>

lemma valid_entries_append:
  "valid_entries (xs @ ys) = valid_entries xs @ valid_entries ys"
  by (induction xs) simp_all

lemma concat_filter_nonempty: "concat (filter (\<lambda>b. b \<noteq> []) xss) = concat xss"
  by (induction xss) simp_all

lemma valid_entries_concat: "valid_entries (concat bs) = concat (map valid_entries bs)"
  by (induction bs) (simp_all add: valid_entries_append)

lemma concat_payloads: "0 < bs \<Longrightarrow> concat (payloads v bs) = valid_entries v"
  by (simp add: payloads_def concat_filter_nonempty valid_entries_concat [symmetric] concat_batches)

text \<open>
  C5: in a batch, an empty id entry is dropped, an entry \<open>[x]\<close> becomes the pair \<open>[x, x]\<close>,
  and an entry with two or more elements becomes the pair of its first two, the rest
  discarded; the entries before and after are normalised on their own. The pairs sent in
  all the lookups of a run, in order, are the normalised entries of the retained list and
  nothing else, so a dropped entry is in no request: no record, and no count, comes from
  it.
\<close>

theorem valid_entries_normalises:
  "valid_entries (pre @ [] # post) = valid_entries pre @ valid_entries post \<and>
   valid_entries (pre @ [x] # post) = valid_entries pre @ [x, x] # valid_entries post \<and>
   valid_entries (pre @ (x # y # rest) # post) = valid_entries pre @ [x, y] # valid_entries post \<and>
   (0 < bs \<longrightarrow> concat (payloads v bs) = valid_entries v)"
  by (simp add: valid_entries_append concat_payloads)

theorem valid_entries_normalises_witness:
  "(0::int) < 2 \<and>
   valid_entries (slice ids_small 0 4) = [[1, 1], [2, 3], [4, 5]] \<and>
   concat (payloads (slice ids_small 0 4) 2) = [[1, 1], [2, 3], [4, 5]]"
proof -
  have v: "valid_entries (slice ids_small 0 4) = [[1, 1], [2, 3], [4, 5]]"
    by (simp add: ids_small_def slice_def clamp_index_def)
  have p: "(0::int) < 2" by simp
  note T = valid_entries_normalises [where bs = 2 and v = "slice ids_small 0 4",
      THEN conjunct2, THEN conjunct2, THEN conjunct2, rule_format, OF p]
  show ?thesis
    using T v by simp
qed

section \<open>Records with fewer than three parts\<close>

text \<open>
  C2: a record with one or two parts is not skipped: reading part 1 or part 2 raises
  \<open>IndexError\<close>, no counter moves, and the loop ends there with the cards after it unread.
  A record that is \<open>None\<close> or empty is skipped, and so is a record of three parts or more
  whose spelling sequence is empty or \<open>None\<close>.
\<close>

theorem short_record_raises:
  "import_card R ntype d st (JArr [sp]) = Inl IndexError \<and>
   import_card R ntype d st (JArr [sp, rd]) = Inl IndexError \<and>
   write_loop R ntype d st (JArr [sp] # cards) = (st, Some IndexError) \<and>
   write_loop R ntype d st (JArr [sp, rd] # cards) = (st, Some IndexError) \<and>
   import_card R ntype d st JNull = Inr (st\<lparr>skipped := skipped st + 1\<rparr>) \<and>
   import_card R ntype d st (JArr []) = Inr (st\<lparr>skipped := skipped st + 1\<rparr>) \<and>
   import_card R ntype d st (JArr (JArr [] # rd # mn # others)) = Inr (st\<lparr>skipped := skipped st + 1\<rparr>) \<and>
   import_card R ntype d st (JArr (JNull # rd # mn # others)) = Inr (st\<lparr>skipped := skipped st + 1\<rparr>)"
  by (simp add: import_card_def)

section \<open>The counters of the loop\<close>

lemma import_card_step:
  "import_card R ntype d st card_data = Inr st' \<Longrightarrow>
   (imported st' = Suc (imported st) \<and> skipped st' = skipped st \<and>
      (\<exists>n. ls_col st' = addNote (ls_col st) n)) \<or>
   (imported st' = imported st \<and> skipped st' = Suc (skipped st) \<and> ls_col st' = ls_col st)"
  by (auto simp: import_card_def split: if_splits sum.splits)

lemma write_loop_append:
  "write_loop R ntype d st (pre @ post) =
     (case write_loop R ntype d st pre of
        (st', None) \<Rightarrow> write_loop R ntype d st' post
      | (st', Some e) \<Rightarrow> (st', Some e))"
  by (induction pre arbitrary: st) (simp_all split: sum.splits)

lemma write_loop_counts:
  "write_loop R ntype d st cards = (st', None) \<Longrightarrow>
   imported st' + skipped st' = imported st + skipped st + length cards \<and>
   length (col_notes (ls_col st')) + imported st = length (col_notes (ls_col st)) + imported st'"
proof (induction cards arbitrary: st)
  case Nil
  then show ?case by simp
next
  case (Cons c cards)
  then obtain s where s: "import_card R ntype d st c = Inr s"
    and rest: "write_loop R ntype d s cards = (st', None)"
    by (auto split: sum.splits)
  from import_card_step [OF s] Cons.IH [OF rest] show ?case
    by (auto simp: addNote_def)
qed

lemma write_loop_fails:
  "write_loop R ntype d st cards = (st', Some e) \<Longrightarrow>
   \<exists>pre bad post. cards = pre @ bad # post \<and> write_loop R ntype d st pre = (st', None) \<and>
     import_card R ntype d st' bad = Inl e"
proof (induction cards arbitrary: st)
  case Nil
  then show ?case by simp
next
  case (Cons c cards)
  show ?case
  proof (cases "import_card R ntype d st c")
    case (Inl e')
    with Cons.prems have "st' = st" "e' = e" by simp_all
    with Inl have "c # cards = [] @ c # cards \<and> write_loop R ntype d st [] = (st', None) \<and>
        import_card R ntype d st' c = Inl e"
      by simp
    then show ?thesis by blast
  next
    case (Inr s)
    with Cons.prems have "write_loop R ntype d s cards = (st', Some e)" by simp
    from Cons.IH [OF this] obtain pre bad post where
      "cards = pre @ bad # post" "write_loop R ntype d s pre = (st', None)"
      "import_card R ntype d st' bad = Inl e"
      by blast
    then have "c # cards = (c # pre) @ bad # post \<and>
        write_loop R ntype d st (c # pre) = (st', None) \<and> import_card R ntype d st' bad = Inl e"
      using Inr by simp
    then show ?thesis by blast
  qed
qed

section \<open>The front of a note\<close>

lemma ustr_simps:
  "ustr '' ('' = [32, 40]" "ustr '')'' = [41]" "ustr '', '' = [44, 32]"
  "ustr ''to eat'' = [116, 111, 32, 101, 97, 116]"
  "ustr ''to dine'' = [116, 111, 32, 100, 105, 110, 101]"
  by (simp_all add: ustr_def)

lemma import_card_mapped:
  assumes "import_card R ntype d st card_data = Inr st'" and "imported st' = Suc (imported st)"
  shows "\<exists>spelling_arr reading_arr meanings_arr spelling reading meaning_text n.
    getitem card_data 0 = Inr spelling_arr \<and>
    getitem card_data 1 = Inr reading_arr \<and>
    getitem card_data 2 = Inr meanings_arr \<and>
    truthy spelling_arr \<and>
    getitem spelling_arr 0 = Inr spelling \<and>
    first_or_empty reading_arr = Inr reading \<and>
    meaning_text_of R meanings_arr = Inr meaning_text \<and>
    fill_fields R (new_note (ntype\<lparr>nt_did := d\<rparr>)) spelling reading meaning_text = Inr n \<and>
    st' = st\<lparr>ls_col := addNote (ls_col st) n, imported := imported st + 1\<rparr>"
  using assms
  by (auto simp: import_card_def first_or_empty_def split: if_splits sum.splits)

text \<open>
  C7: for every record that is mapped into a note of a note type with two fields or more,
  field 0 is the string form of the first spelling, followed by the first reading in
  parentheses, after a space, exactly when that reading is truthy and not equal to the
  spelling; the reading of an empty or absent reading sequence is the empty string. For a
  spelling and a reading that are strings this is the spelling itself, with the reading
  appended if and only if it is not empty and differs from the spelling.
\<close>

theorem front_composition:
  assumes "import_card R ntype d st card_data = Inr st'" and "imported st' = Suc (imported st)"
    and "2 \<le> length (nt_flds ntype)"
  shows "\<exists>spelling_arr reading_arr spelling reading n.
    getitem card_data 0 = Inr spelling_arr \<and> getitem spelling_arr 0 = Inr spelling \<and>
    getitem card_data 1 = Inr reading_arr \<and> first_or_empty reading_arr = Inr reading \<and>
    col_notes (ls_col st') = col_notes (ls_col st) @ [n] \<and>
    note_fields n ! 0 =
      JStr (if truthy reading \<and> \<not> py_eq reading spelling
            then py_str R spelling @ ustr '' ('' @ py_str R reading @ ustr '')''
            else py_str R spelling) \<and>
    (\<forall>s t. spelling = JStr s \<and> reading = JStr t \<longrightarrow>
       note_fields n ! 0 = JStr (if t \<noteq> [] \<and> t \<noteq> s then s @ ustr '' ('' @ t @ ustr '')'' else s))"
proof -
  from import_card_mapped [OF assms(1,2)] obtain spelling_arr reading_arr meanings_arr
      spelling reading meaning_text n where
    g: "getitem card_data 0 = Inr spelling_arr" "getitem card_data 1 = Inr reading_arr"
      "getitem spelling_arr 0 = Inr spelling" "first_or_empty reading_arr = Inr reading"
    and f: "fill_fields R (new_note (ntype\<lparr>nt_did := d\<rparr>)) spelling reading meaning_text = Inr n"
    and st': "st' = st\<lparr>ls_col := addNote (ls_col st) n, imported := imported st + 1\<rparr>"
    by blast
  have pos: "0 < length (nt_flds ntype)" using assms(3) by linarith
  from f assms(3) pos have front: "note_fields n ! 0 =
      JStr (if truthy reading \<and> \<not> py_eq reading spelling
            then py_str R spelling @ ustr '' ('' @ py_str R reading @ ustr '')''
            else py_str R spelling)"
    by (auto simp: fill_fields_def new_note_def Let_def nth_list_update)
  have strs: "note_fields n ! 0 = JStr (if t \<noteq> [] \<and> t \<noteq> s then s @ ustr '' ('' @ t @ ustr '')'' else s)"
    if "spelling = JStr s" and "reading = JStr t" for s t
    using front that by (auto simp: py_str_def)
  have nts: "col_notes (ls_col st') = col_notes (ls_col st) @ [n]"
    using st' by (simp add: addNote_def)
  show ?thesis
    using g front strs nts by blast
qed

text \<open>
  The two examples of the specification: a reading that differs from the spelling is
  appended in parentheses, and a reading equal to the spelling leaves the spelling bare.
\<close>

theorem front_composition_witness:
  "import_card id basic_notetype 1 start_state taberu =
     Inr (start_state\<lparr>ls_col := addNote start_collection
            \<lparr>note_model = basic_notetype\<lparr>nt_did := 1\<rparr>,
             note_fields = [JStr ([39135, 12409, 12427] @ ustr '' ('' @ [12383, 12409, 12427] @ ustr '')''),
                            JStr (ustr ''to eat'' @ ustr '', '' @ ustr ''to dine'')]\<rparr>,
          imported := 1\<rparr>) \<and>
   import_card id basic_notetype 1 start_state kana_only =
     Inr (start_state\<lparr>ls_col := addNote start_collection
            \<lparr>note_model = basic_notetype\<lparr>nt_did := 1\<rparr>,
             note_fields = [JStr [12383, 12409, 12427], JStr []]\<rparr>,
          imported := 1\<rparr>) \<and>
   (\<exists>n. col_notes (addNote start_collection
            \<lparr>note_model = basic_notetype\<lparr>nt_did := 1\<rparr>,
             note_fields = [JStr ([39135, 12409, 12427] @ ustr '' ('' @ [12383, 12409, 12427] @ ustr '')''),
                            JStr (ustr ''to eat'' @ ustr '', '' @ ustr ''to dine'')]\<rparr>) =
          col_notes start_collection @ [n] \<and>
        note_fields n ! 0 = JStr [39135, 12409, 12427, 32, 40, 12383, 12409, 12427, 41])"
proof -
  let ?n = "\<lparr>note_model = basic_notetype\<lparr>nt_did := 1\<rparr>,
             note_fields = [JStr ([39135, 12409, 12427] @ ustr '' ('' @ [12383, 12409, 12427] @ ustr '')''),
                            JStr (ustr ''to eat'' @ ustr '', '' @ ustr ''to dine'')]\<rparr>"
  let ?st' = "start_state\<lparr>ls_col := addNote start_collection ?n, imported := 1\<rparr>"
  have a: "import_card id basic_notetype 1 start_state taberu = Inr ?st'"
    by (simp add: import_card_def taberu_def start_state_def basic_notetype_def first_or_empty_def
        meaning_text_of_def fill_fields_def new_note_def py_str_def ustr_simps)
  have b: "import_card id basic_notetype 1 start_state kana_only =
     Inr (start_state\<lparr>ls_col := addNote start_collection
            \<lparr>note_model = basic_notetype\<lparr>nt_did := 1\<rparr>,
             note_fields = [JStr [12383, 12409, 12427], JStr []]\<rparr>,
          imported := 1\<rparr>)"
    by (simp add: import_card_def kana_only_def start_state_def basic_notetype_def first_or_empty_def
        meaning_text_of_def fill_fields_def new_note_def py_str_def ustr_simps)
  have i: "imported ?st' = Suc (imported start_state)"
    by (simp add: start_state_def)
  have f: "2 \<le> length (nt_flds basic_notetype)"
    by (simp add: basic_notetype_def)
  from front_composition [OF a i f] obtain spelling_arr reading_arr spelling reading n where
    g: "getitem taberu 0 = Inr spelling_arr" "getitem spelling_arr 0 = Inr spelling"
       "getitem taberu 1 = Inr reading_arr" "first_or_empty reading_arr = Inr reading"
    and nts: "col_notes (ls_col ?st') = col_notes (ls_col start_state) @ [n]"
    and strs: "\<forall>s t. spelling = JStr s \<and> reading = JStr t \<longrightarrow>
       note_fields n ! 0 = JStr (if t \<noteq> [] \<and> t \<noteq> s then s @ ustr '' ('' @ t @ ustr '')'' else s)"
    by blast
  from g have "spelling = JStr [39135, 12409, 12427]" "reading = JStr [12383, 12409, 12427]"
    by (auto simp: taberu_def first_or_empty_def)
  with strs have "note_fields n ! 0 = JStr [39135, 12409, 12427, 32, 40, 12383, 12409, 12427, 41]"
    by (simp add: ustr_simps)
  with nts have "\<exists>n. col_notes (addNote start_collection ?n) = col_notes start_collection @ [n] \<and>
        note_fields n ! 0 = JStr [39135, 12409, 12427, 32, 40, 12383, 12409, 12427, 41]"
    by (auto simp: start_state_def)
  with a b show ?thesis by blast
qed

section \<open>The fields of a note\<close>

lemma fill_fields_shape:
  assumes "fill_fields R (new_note m) spelling reading meaning_text = Inr n"
  shows "length (note_fields n) = length (nt_flds m) \<and> 1 \<le> length (nt_flds m) \<and>
    (2 \<le> length (nt_flds m) \<longrightarrow>
       note_fields n ! 0 =
         JStr (if truthy reading \<and> \<not> py_eq reading spelling
               then py_str R spelling @ ustr '' ('' @ py_str R reading @ ustr '')''
               else py_str R spelling) \<and>
       note_fields n ! 1 = JStr meaning_text \<and>
       (\<forall>i. 2 \<le> i \<and> i < length (nt_flds m) \<longrightarrow> note_fields n ! i = JStr [])) \<and>
    (length (nt_flds m) = 1 \<longrightarrow> note_fields n = [spelling])"
proof (cases "2 \<le> length (nt_flds m)")
  case True
  then have pos: "0 < length (nt_flds m)" "1 < length (nt_flds m)" by linarith+
  from assms True have n: "note_fields n =
      (replicate (length (nt_flds m)) (JStr []))
        [0 := JStr (if truthy reading \<and> \<not> py_eq reading spelling
               then py_str R spelling @ ustr '' ('' @ py_str R reading @ ustr '')''
               else py_str R spelling), 1 := JStr meaning_text]"
    by (auto simp: fill_fields_def new_note_def Let_def)
  show ?thesis
    unfolding n using True pos by (auto simp: nth_list_update)
next
  case False
  with assms have "0 < length (nt_flds m)"
    by (auto simp: fill_fields_def new_note_def Let_def split: if_splits)
  with False have one: "length (nt_flds m) = 1" by linarith
  with assms False have "note_fields n = (replicate 1 (JStr []))[0 := spelling]"
    by (auto simp: fill_fields_def new_note_def Let_def split: if_splits)
  then show ?thesis using one by simp
qed

lemma meaning_text_of_join:
  assumes "meaning_text_of R meanings_arr = Inr meaning_text"
  shows "(\<not> truthy meanings_arr \<longrightarrow> meaning_text = []) \<and>
    (\<forall>ms. meanings_arr = JArr ms \<longrightarrow> meaning_text = join (ustr '', '') (map (py_str R) ms))"
  using assms by (auto simp: meaning_text_of_def split: if_splits)

lemma import_taberu_three:
  "import_card id three_field_notetype 1 start_state taberu =
     Inr (start_state\<lparr>ls_col := addNote start_collection
            \<lparr>note_model = three_field_notetype\<lparr>nt_did := 1\<rparr>,
             note_fields = [JStr [39135, 12409, 12427, 32, 40, 12383, 12409, 12427, 41],
                            JStr (ustr ''to eat, to dine''), JStr []]\<rparr>,
          imported := 1\<rparr>)"
  by (simp add: import_card_def taberu_def start_state_def three_field_notetype_def first_or_empty_def
      meaning_text_of_def fill_fields_def new_note_def py_str_def ustr_def)

lemma import_taberu_single:
  "import_card id single_notetype 1 start_state taberu =
     Inr (start_state\<lparr>ls_col := addNote start_collection
            \<lparr>note_model = single_notetype\<lparr>nt_did := 1\<rparr>,
             note_fields = [JStr [39135, 12409, 12427]]\<rparr>,
          imported := 1\<rparr>)"
  by (simp add: import_card_def taberu_def start_state_def single_notetype_def first_or_empty_def
      meaning_text_of_def fill_fields_def new_note_def py_str_def ustr_def)

text \<open>
  C8: for every record that is mapped into a note, the meanings text is the join, with a
  comma and a space, of the string forms of the elements of the meanings sequence, and the
  empty string for a falsy (empty or absent) one. The note has one field per field of its
  note type. With two fields or more, field 0 is the composed front, field 1 the meanings
  text, and every further field is left empty; with fewer than two fields, the only field
  is the bare spelling and nothing holds the meanings text.
\<close>

theorem fields_of_mapped_record:
  assumes "import_card R ntype d st card_data = Inr st'" and "imported st' = Suc (imported st)"
  shows "\<exists>spelling_arr reading_arr meanings_arr spelling reading meaning_text n.
    getitem card_data 0 = Inr spelling_arr \<and> getitem spelling_arr 0 = Inr spelling \<and>
    getitem card_data 1 = Inr reading_arr \<and> first_or_empty reading_arr = Inr reading \<and>
    getitem card_data 2 = Inr meanings_arr \<and>
    meaning_text_of R meanings_arr = Inr meaning_text \<and>
    (\<not> truthy meanings_arr \<longrightarrow> meaning_text = []) \<and>
    (\<forall>ms. meanings_arr = JArr ms \<longrightarrow> meaning_text = join (ustr '', '') (map (py_str R) ms)) \<and>
    col_notes (ls_col st') = col_notes (ls_col st) @ [n] \<and>
    length (note_fields n) = length (nt_flds ntype) \<and> 1 \<le> length (nt_flds ntype) \<and>
    (2 \<le> length (nt_flds ntype) \<longrightarrow>
       note_fields n ! 0 =
         JStr (if truthy reading \<and> \<not> py_eq reading spelling
               then py_str R spelling @ ustr '' ('' @ py_str R reading @ ustr '')''
               else py_str R spelling) \<and>
       note_fields n ! 1 = JStr meaning_text \<and>
       (\<forall>i. 2 \<le> i \<and> i < length (nt_flds ntype) \<longrightarrow> note_fields n ! i = JStr [])) \<and>
    (length (nt_flds ntype) < 2 \<longrightarrow> note_fields n = [spelling])"
proof -
  from import_card_mapped [OF assms] obtain spelling_arr reading_arr meanings_arr
      spelling reading meaning_text n where
    g: "getitem card_data 0 = Inr spelling_arr" "getitem spelling_arr 0 = Inr spelling"
      "getitem card_data 1 = Inr reading_arr" "first_or_empty reading_arr = Inr reading"
      "getitem card_data 2 = Inr meanings_arr"
    and m: "meaning_text_of R meanings_arr = Inr meaning_text"
    and f: "fill_fields R (new_note (ntype\<lparr>nt_did := d\<rparr>)) spelling reading meaning_text = Inr n"
    and st': "st' = st\<lparr>ls_col := addNote (ls_col st) n, imported := imported st + 1\<rparr>"
    by blast
  have nts: "col_notes (ls_col st') = col_notes (ls_col st) @ [n]"
    using st' by (simp add: addNote_def)
  from fill_fields_shape [OF f] have shape:
    "length (note_fields n) = length (nt_flds ntype) \<and> 1 \<le> length (nt_flds ntype) \<and>
    (2 \<le> length (nt_flds ntype) \<longrightarrow>
       note_fields n ! 0 =
         JStr (if truthy reading \<and> \<not> py_eq reading spelling
               then py_str R spelling @ ustr '' ('' @ py_str R reading @ ustr '')''
               else py_str R spelling) \<and>
       note_fields n ! 1 = JStr meaning_text \<and>
       (\<forall>i. 2 \<le> i \<and> i < length (nt_flds ntype) \<longrightarrow> note_fields n ! i = JStr [])) \<and>
    (length (nt_flds ntype) = 1 \<longrightarrow> note_fields n = [spelling])"
    by simp
  have one: "length (nt_flds ntype) = 1" if "length (nt_flds ntype) < 2"
    using shape that by linarith
  have few: "length (nt_flds ntype) < 2 \<longrightarrow> note_fields n = [spelling]"
    using shape one by blast
  show ?thesis
    using g m meaning_text_of_join [OF m] nts shape few by blast
qed

theorem fields_of_mapped_record_witness:
  "import_card id three_field_notetype 1 start_state taberu =
     Inr (start_state\<lparr>ls_col := addNote start_collection
            \<lparr>note_model = three_field_notetype\<lparr>nt_did := 1\<rparr>,
             note_fields = [JStr [39135, 12409, 12427, 32, 40, 12383, 12409, 12427, 41],
                            JStr (ustr ''to eat, to dine''), JStr []]\<rparr>,
          imported := 1\<rparr>) \<and>
   import_card id single_notetype 1 start_state taberu =
     Inr (start_state\<lparr>ls_col := addNote start_collection
            \<lparr>note_model = single_notetype\<lparr>nt_did := 1\<rparr>,
             note_fields = [JStr [39135, 12409, 12427]]\<rparr>,
          imported := 1\<rparr>) \<and>
   (\<exists>n. col_notes (addNote start_collection
            \<lparr>note_model = three_field_notetype\<lparr>nt_did := 1\<rparr>,
             note_fields = [JStr [39135, 12409, 12427, 32, 40, 12383, 12409, 12427, 41],
                            JStr (ustr ''to eat, to dine''), JStr []]\<rparr>) =
          col_notes start_collection @ [n] \<and>
        length (note_fields n) = 3 \<and>
        note_fields n ! 1 = JStr (join (ustr '', '') [ustr ''to eat'', ustr ''to dine'']) \<and>
        note_fields n ! 2 = JStr []) \<and>
   (\<exists>n. col_notes (addNote start_collection
            \<lparr>note_model = single_notetype\<lparr>nt_did := 1\<rparr>,
             note_fields = [JStr [39135, 12409, 12427]]\<rparr>) =
          col_notes start_collection @ [n] \<and>
        note_fields n = [JStr [39135, 12409, 12427]])"
proof -
  let ?n = "\<lparr>note_model = three_field_notetype\<lparr>nt_did := 1\<rparr>,
             note_fields = [JStr [39135, 12409, 12427, 32, 40, 12383, 12409, 12427, 41],
                            JStr (ustr ''to eat, to dine''), JStr []]\<rparr>"
  let ?st' = "start_state\<lparr>ls_col := addNote start_collection ?n, imported := 1\<rparr>"
  note a = import_taberu_three
  have i: "imported ?st' = Suc (imported start_state)"
    by (simp add: start_state_def)
  from fields_of_mapped_record [OF a i] obtain meanings_arr meaning_text n where
    g: "getitem taberu 2 = Inr meanings_arr"
    and j: "\<forall>ms. meanings_arr = JArr ms \<longrightarrow> meaning_text = join (ustr '', '') (map (py_str id) ms)"
    and nts: "col_notes (ls_col ?st') = col_notes (ls_col start_state) @ [n]"
    and len: "length (note_fields n) = length (nt_flds three_field_notetype)"
    and two: "2 \<le> length (nt_flds three_field_notetype) \<longrightarrow>
       note_fields n ! 1 = JStr meaning_text \<and>
       (\<forall>i. 2 \<le> i \<and> i < length (nt_flds three_field_notetype) \<longrightarrow> note_fields n ! i = JStr [])"
    by blast
  have l3: "length (nt_flds three_field_notetype) = 3" by (simp add: three_field_notetype_def)
  from g have "meanings_arr = JArr [JStr (ustr ''to eat''), JStr (ustr ''to dine'')]"
    by (simp add: taberu_def)
  with j have mt: "meaning_text = join (ustr '', '') [ustr ''to eat'', ustr ''to dine'']"
    by (simp add: py_str_def)
  from two l3 have f1: "note_fields n ! 1 = JStr meaning_text" and f2: "note_fields n ! 2 = JStr []"
    by simp_all
  from nts have nts': "col_notes (addNote start_collection ?n) = col_notes start_collection @ [n]"
    by (simp add: start_state_def)
  from nts' len l3 f1 f2 mt have "\<exists>n. col_notes (addNote start_collection ?n) =
          col_notes start_collection @ [n] \<and>
        length (note_fields n) = 3 \<and>
        note_fields n ! 1 = JStr (join (ustr '', '') [ustr ''to eat'', ustr ''to dine'']) \<and>
        note_fields n ! 2 = JStr []"
    by auto
  then have three: "\<exists>n. col_notes (addNote start_collection ?n) =
          col_notes start_collection @ [n] \<and>
        length (note_fields n) = 3 \<and>
        note_fields n ! 1 = JStr (join (ustr '', '') [ustr ''to eat'', ustr ''to dine'']) \<and>
        note_fields n ! 2 = JStr []" .
  let ?m = "\<lparr>note_model = single_notetype\<lparr>nt_did := 1\<rparr>,
             note_fields = [JStr [39135, 12409, 12427]]\<rparr>"
  let ?su' = "start_state\<lparr>ls_col := addNote start_collection ?m, imported := 1\<rparr>"
  have i1: "imported ?su' = Suc (imported start_state)"
    by (simp add: start_state_def)
  from fields_of_mapped_record [OF import_taberu_single i1] obtain spelling_arr spelling k where
    s0: "getitem taberu 0 = Inr spelling_arr" "getitem spelling_arr 0 = Inr spelling"
    and nts1: "col_notes (ls_col ?su') = col_notes (ls_col start_state) @ [k]"
    and few: "length (nt_flds single_notetype) < 2 \<longrightarrow> note_fields k = [spelling]"
    by blast
  from s0 have sp: "spelling = JStr [39135, 12409, 12427]"
    by (auto simp: taberu_def)
  have "length (nt_flds single_notetype) < 2" by (simp add: single_notetype_def)
  with few sp have "note_fields k = [JStr [39135, 12409, 12427]]" by simp
  with nts1 have single: "\<exists>n. col_notes (addNote start_collection ?m) =
          col_notes start_collection @ [n] \<and> note_fields n = [JStr [39135, 12409, 12427]]"
    by (auto simp: start_state_def)
  from a import_taberu_single three single show ?thesis by blast
qed

section \<open>Runs of import\_cards\<close>

lemma decks_id_keeps:
  "col_notes (fst (decks_id c name)) = col_notes c \<and>
   col_models (fst (decks_id c name)) = col_models c \<and>
   col_resets (fst (decks_id c name)) = col_resets c \<and>
   by_name (fst (decks_id c name)) t = by_name c t"
  by (simp add: decks_id_def by_name_def Let_def split: option.splits)

lemma write_loop_notes:
  "write_loop R ntype d st cards = (st', r) \<Longrightarrow>
   \<exists>ns. col_notes (ls_col st') = col_notes (ls_col st) @ ns \<and>
        imported st' = imported st + length ns \<and>
        col_decks (ls_col st') = col_decks (ls_col st) \<and>
        col_resets (ls_col st') = col_resets (ls_col st)"
proof (induction cards arbitrary: st)
  case Nil
  then show ?case by simp
next
  case (Cons c cards)
  show ?case
  proof (cases "import_card R ntype d st c")
    case (Inl e)
    with Cons.prems show ?thesis by simp
  next
    case (Inr s)
    with Cons.prems have "write_loop R ntype d s cards = (st', r)" by simp
    from Cons.IH [OF this] obtain ns where ns:
      "col_notes (ls_col st') = col_notes (ls_col s) @ ns" "imported st' = imported s + length ns"
      "col_decks (ls_col st') = col_decks (ls_col s)" "col_resets (ls_col st') = col_resets (ls_col s)"
      by blast
    from import_card_step [OF Inr] show ?thesis
    proof
      assume "imported s = Suc (imported st) \<and> skipped s = skipped st \<and>
        (\<exists>n. ls_col s = addNote (ls_col st) n)"
      then obtain n where "imported s = Suc (imported st)" "ls_col s = addNote (ls_col st) n"
        by blast
      with ns have "col_notes (ls_col st') = col_notes (ls_col st) @ (n # ns) \<and>
        imported st' = imported st + length (n # ns) \<and>
        col_decks (ls_col st') = col_decks (ls_col st) \<and>
        col_resets (ls_col st') = col_resets (ls_col st)"
        by (simp add: addNote_def)
      then show ?thesis by blast
    next
      assume "imported s = imported st \<and> skipped s = Suc (skipped st) \<and> ls_col s = ls_col st"
      with ns have "col_notes (ls_col st') = col_notes (ls_col st) @ ns \<and>
        imported st' = imported st + length ns \<and>
        col_decks (ls_col st') = col_decks (ls_col st) \<and>
        col_resets (ls_col st') = col_resets (ls_col st)"
        by simp
      then show ?thesis by blast
    qed
  qed
qed

lemma import_cards_resolving_fails:
  assumes "deck_combo_count ui \<noteq> 0" and "strip (anki_deck_text ui) \<noteq> []"
    and "get_deck_cards rm (calls w) (deck_combo_data ui) 1000 100 = (cs, Inl e)"
  shows "import_cards R rm ui w =
    (save_settings ui w)\<lparr>calls := cs,
       status_text := status_text w @ [Starting_import, Fetching_cards, Error_during_import e],
       shown := shown w @ [Warn_import_failed e]\<rparr>"
  using assms by (simp add: import_cards_def import_try_def save_settings_def Let_def)

lemma import_cards_note_type_missing:
  assumes "deck_combo_count ui \<noteq> 0" and "strip (anki_deck_text ui) \<noteq> []"
    and "get_deck_cards rm (calls w) (deck_combo_data ui) 1000 100 = (cs, Inr cards)"
    and "by_name (col w) (note_type_text ui) = None"
  shows "import_cards R rm ui w =
    (save_settings ui w)\<lparr>calls := cs,
       col := fst (decks_id (col w) (strip (anki_deck_text ui))),
       status_text := status_text w @ [Starting_import, Fetching_cards, Retrieved_cards (length cards)],
       shown := shown w @ [Warn_note_type_not_found (note_type_text ui)]\<rparr>"
proof -
  obtain c did where d: "decks_id (col w) (strip (anki_deck_text ui)) = (c, did)"
    by (cases "decks_id (col w) (strip (anki_deck_text ui))")
  have "by_name c (note_type_text ui) = None"
    using decks_id_keeps [of "col w" "strip (anki_deck_text ui)" "note_type_text ui"] assms(4) d
    by simp
  then show ?thesis
    using assms d by (simp add: import_cards_def import_try_def save_settings_def Let_def)
qed

lemma import_cards_writing_fails:
  assumes "deck_combo_count ui \<noteq> 0" and "strip (anki_deck_text ui) \<noteq> []"
    and "get_deck_cards rm (calls w) (deck_combo_data ui) 1000 100 = (cs, Inr cards)"
    and "by_name (col w) (note_type_text ui) = Some ntype"
    and "decks_id (col w) (strip (anki_deck_text ui)) = (c, did)"
    and "write_loop R ntype did \<lparr>ls_col = c, imported = 0, skipped = 0\<rparr> cards = (st, Some e)"
  shows "import_cards R rm ui w =
    (save_settings ui w)\<lparr>calls := cs, col := ls_col st,
       status_text := status_text w @
         [Starting_import, Fetching_cards, Retrieved_cards (length cards), Error_during_import e],
       shown := shown w @ [Warn_import_failed e]\<rparr>"
proof -
  have "by_name c (note_type_text ui) = Some ntype"
    using decks_id_keeps [of "col w" "strip (anki_deck_text ui)" "note_type_text ui"] assms(4,5)
    by simp
  then show ?thesis
    using assms by (simp add: import_cards_def import_try_def save_settings_def Let_def)
qed

lemma strip_jpdb: "strip (ustr '' JPDB '') = ustr ''JPDB''"
  by (simp add: strip_def py_isspace_def ustr_def)

lemma get_deck_cards_remote_cards:
  "get_deck_cards (remote_cards cards) [] 7 1000 100 =
     ([Deck_list_vocabulary 7, Lookup_vocabulary [[1, 1], [2, 2]]], Inr cards)"
  by (simp add: get_deck_cards_def list_deck_vocabulary_def lookup_vocabulary_def make_request_def
      remote_cards_def py_range_def range_up.simps slice_def clamp_index_def)

lemma decks_id_start:
  "decks_id start_collection (ustr ''JPDB'') =
     (start_collection\<lparr>col_decks := [(ustr ''JPDB'', 1)]\<rparr>, 1)"
  by (simp add: decks_id_def start_collection_def)

lemma by_name_start:
  "by_name start_collection (ustr ''Basic'') = Some basic_notetype"
  "by_name start_collection (ustr ''Missing'') = None"
  by (simp_all add: by_name_def start_collection_def basic_notetype_def single_notetype_def ustr_def)

lemma ui_simps:
  "deck_combo_count ui_basic = 1" "deck_combo_data ui_basic = 7"
  "anki_deck_text ui_basic = ustr '' JPDB ''" "note_type_text ui_basic = ustr ''Basic''"
  "deck_combo_count ui_missing = 1" "deck_combo_data ui_missing = 7"
  "anki_deck_text ui_missing = ustr '' JPDB ''" "note_type_text ui_missing = ustr ''Missing''"
  by (simp_all add: ui_basic_def ui_missing_def)

lemma world_simps:
  "calls start_world = []" "col start_world = start_collection" "status_text start_world = []"
  "shown start_world = []"
  by (simp_all add: start_world_def)

lemma write_loop_taberu_five:
  "write_loop id basic_notetype 1
      \<lparr>ls_col = start_collection\<lparr>col_decks := [(ustr ''JPDB'', 1)]\<rparr>, imported = 0, skipped = 0\<rparr>
      [taberu, JInt 5, kana_only] =
     (\<lparr>ls_col = addNote (start_collection\<lparr>col_decks := [(ustr ''JPDB'', 1)]\<rparr>)
          \<lparr>note_model = basic_notetype\<lparr>nt_did := 1\<rparr>,
           note_fields = [JStr [39135, 12409, 12427, 32, 40, 12383, 12409, 12427, 41],
                          JStr (ustr ''to eat, to dine'')]\<rparr>,
       imported = 1, skipped = 0\<rparr>, Some TypeError)"
  by (simp add: import_card_def taberu_def basic_notetype_def first_or_empty_def
      meaning_text_of_def fill_fields_def new_note_def py_str_def ustr_def)

lemma write_loop_none_five:
  "write_loop id basic_notetype 1
      \<lparr>ls_col = start_collection\<lparr>col_decks := [(ustr ''JPDB'', 1)]\<rparr>, imported = 0, skipped = 0\<rparr>
      [JNull, JInt 5, kana_only] =
     (\<lparr>ls_col = start_collection\<lparr>col_decks := [(ustr ''JPDB'', 1)]\<rparr>, imported = 0, skipped = 1\<rparr>,
      Some TypeError)"
  by (simp add: import_card_def)

lemma run_facts:
  "deck_combo_count ui_basic \<noteq> 0" "strip (anki_deck_text ui_basic) \<noteq> []"
  "deck_combo_count ui_missing \<noteq> 0" "strip (anki_deck_text ui_missing) \<noteq> []"
  "get_deck_cards (remote_cards cards) (calls start_world) (deck_combo_data ui_basic) 1000 100 =
     ([Deck_list_vocabulary 7, Lookup_vocabulary [[1, 1], [2, 2]]], Inr cards)"
  "get_deck_cards (remote_cards cards) (calls start_world) (deck_combo_data ui_missing) 1000 100 =
     ([Deck_list_vocabulary 7, Lookup_vocabulary [[1, 1], [2, 2]]], Inr cards)"
  "by_name (col start_world) (note_type_text ui_basic) = Some basic_notetype"
  "by_name (col start_world) (note_type_text ui_missing) = None"
  "decks_id (col start_world) (strip (anki_deck_text ui_basic)) =
     (start_collection\<lparr>col_decks := [(ustr ''JPDB'', 1)]\<rparr>, 1)"
  "decks_id (col start_world) (strip (anki_deck_text ui_missing)) =
     (start_collection\<lparr>col_decks := [(ustr ''JPDB'', 1)]\<rparr>, 1)"
  by (simp_all add: ui_simps world_simps strip_jpdb get_deck_cards_remote_cards by_name_start
      decks_id_start) (simp_all add: ustr_def)

section \<open>The counters of a run\<close>

lemma import_cards_succeeds:
  assumes "deck_combo_count ui \<noteq> 0" and "strip (anki_deck_text ui) \<noteq> []"
    and "get_deck_cards rm (calls w) (deck_combo_data ui) 1000 100 = (cs, Inr cards)"
    and "by_name (col w) (note_type_text ui) = Some ntype"
    and "decks_id (col w) (strip (anki_deck_text ui)) = (c, did)"
    and "write_loop R ntype did \<lparr>ls_col = c, imported = 0, skipped = 0\<rparr> cards = (st, None)"
  shows "import_cards R rm ui w =
    (save_settings ui w)\<lparr>calls := cs, col := reset (ls_col st),
       status_text := status_text w @
         [Starting_import, Fetching_cards, Retrieved_cards (length cards), Import_complete,
          Imported_line (imported st), Skipped_line (skipped st)],
       shown := shown w @ [Info_imported (imported st) (strip (anki_deck_text ui))]\<rparr>"
proof -
  have "by_name c (note_type_text ui) = Some ntype"
    using decks_id_keeps [of "col w" "strip (anki_deck_text ui)" "note_type_text ui"] assms(4,5)
    by simp
  then show ?thesis
    using assms by (simp add: import_cards_def import_try_def save_settings_def Let_def)
qed

lemma write_loop_prefix_ok:
  assumes "write_loop R ntype d s cards = (st, None)"
  shows "\<exists>s'. write_loop R ntype d s (take k cards) = (s', None)"
proof (cases "write_loop R ntype d s (take k cards)")
  case (Pair s' r)
  have "write_loop R ntype d s cards = write_loop R ntype d s (take k cards @ drop k cards)"
    by simp
  also have "\<dots> = (case r of None \<Rightarrow> write_loop R ntype d s' (drop k cards)
      | Some e \<Rightarrow> (s', Some e))"
    unfolding write_loop_append Pair by simp
  finally have "r = None"
    using assms by (cases r) simp_all
  with Pair show ?thesis by simp
qed

lemma write_loop_fails_at:
  assumes "write_loop R ntype d s cards = (st, Some e)"
  shows "\<exists>k < length cards. write_loop R ntype d s (take k cards) = (st, None) \<and>
    import_card R ntype d st (cards ! k) = Inl e"
proof -
  from write_loop_fails [OF assms] obtain pre bad post where
    c: "cards = pre @ bad # post" and p: "write_loop R ntype d s pre = (st, None)"
    and b: "import_card R ntype d st bad = Inl e"
    by blast
  have "length pre < length cards" "take (length pre) cards = pre" "cards ! length pre = bad"
    using c by simp_all
  with p b show ?thesis by metis
qed

lemma write_loop_run:
  "write_loop id basic_notetype 1
      \<lparr>ls_col = start_collection\<lparr>col_decks := [(ustr ''JPDB'', 1)]\<rparr>, imported = 0, skipped = 0\<rparr>
      [taberu, JNull, kana_only] =
     (\<lparr>ls_col = addNote (addNote (start_collection\<lparr>col_decks := [(ustr ''JPDB'', 1)]\<rparr>)
          \<lparr>note_model = basic_notetype\<lparr>nt_did := 1\<rparr>,
           note_fields = [JStr [39135, 12409, 12427, 32, 40, 12383, 12409, 12427, 41],
                          JStr (ustr ''to eat, to dine'')]\<rparr>)
          \<lparr>note_model = basic_notetype\<lparr>nt_did := 1\<rparr>,
           note_fields = [JStr [12383, 12409, 12427], JStr []]\<rparr>,
       imported = 2, skipped = 1\<rparr>, None)"
  by (simp add: import_card_def taberu_def kana_only_def basic_notetype_def first_or_empty_def
      meaning_text_of_def fill_fields_def new_note_def py_str_def ustr_def)

text \<open>
  C10: in a run that has fetched its cards and found its note type, the loop of
  \<open>import_cards\<close> is the loop started with both counters at 0. When it ends without an
  exception, the run reports \<open>imported\<close> and \<open>skipped\<close> in its last two status lines and in
  the message it shows, their sum is the number of cards, and the loop has passed through a
  state for every prefix of the cards. When it raises on card \<open>k\<close>, the collection left
  is the one reached after \<open>k\<close> cards, where \<open>imported + skipped = k\<close>. After any \<open>k\<close>
  cards, \<open>imported + skipped = k\<close> and the notes written are as many as \<open>imported\<close>;
  processing the next card moves exactly one of the two counters, by exactly one, and
  gives the state of the loop after \<open>k + 1\<close> cards.
\<close>

theorem counters_count_processed:
  assumes "deck_combo_count ui \<noteq> 0" and "strip (anki_deck_text ui) \<noteq> []"
    and "get_deck_cards rm (calls w) (deck_combo_data ui) 1000 100 = (cs, Inr cards)"
    and "by_name (col w) (note_type_text ui) = Some ntype"
    and "decks_id (col w) (strip (anki_deck_text ui)) = (c, did)"
  shows "\<exists>st r.
    write_loop R ntype did \<lparr>ls_col = c, imported = 0, skipped = 0\<rparr> cards = (st, r) \<and>
    (r = None \<longrightarrow>
       import_cards R rm ui w =
         (save_settings ui w)\<lparr>calls := cs, col := reset (ls_col st),
            status_text := status_text w @
              [Starting_import, Fetching_cards, Retrieved_cards (length cards), Import_complete,
               Imported_line (imported st), Skipped_line (skipped st)],
            shown := shown w @ [Info_imported (imported st) (strip (anki_deck_text ui))]\<rparr> \<and>
       imported st + skipped st = length cards \<and>
       length (col_notes (ls_col st)) = length (col_notes (col w)) + imported st \<and>
       (\<forall>k \<le> length cards. \<exists>s.
          write_loop R ntype did \<lparr>ls_col = c, imported = 0, skipped = 0\<rparr> (take k cards)
            = (s, None))) \<and>
    (\<forall>e. r = Some e \<longrightarrow>
       col (import_cards R rm ui w) = ls_col st \<and>
       (\<exists>k < length cards.
          write_loop R ntype did \<lparr>ls_col = c, imported = 0, skipped = 0\<rparr> (take k cards)
            = (st, None) \<and>
          import_card R ntype did st (cards ! k) = Inl e \<and>
          imported st + skipped st = k \<and>
          length (col_notes (ls_col st)) = length (col_notes (col w)) + imported st)) \<and>
    (\<forall>k s. k \<le> length cards \<and>
       write_loop R ntype did \<lparr>ls_col = c, imported = 0, skipped = 0\<rparr> (take k cards) = (s, None)
       \<longrightarrow>
       imported s + skipped s = k \<and>
       length (col_notes (ls_col s)) = length (col_notes c) + imported s \<and>
       (\<forall>s'. k < length cards \<and> import_card R ntype did s (cards ! k) = Inr s' \<longrightarrow>
          ((imported s' = imported s + 1 \<and> skipped s' = skipped s) \<or>
           (imported s' = imported s \<and> skipped s' = skipped s + 1)) \<and>
          write_loop R ntype did \<lparr>ls_col = c, imported = 0, skipped = 0\<rparr> (take (Suc k) cards)
            = (s', None)))"
proof -
  let ?init = "\<lparr>ls_col = c, imported = 0, skipped = 0\<rparr>"
  obtain st r where run: "write_loop R ntype did ?init cards = (st, r)"
    by (cases "write_loop R ntype did ?init cards")
  have cn: "col_notes c = col_notes (col w)"
    using decks_id_keeps [of "col w" "strip (anki_deck_text ui)"] assms(5) by simp
  have prefix: "imported s + skipped s = k \<and>
       length (col_notes (ls_col s)) = length (col_notes c) + imported s"
    if "k \<le> length cards" and "write_loop R ntype did ?init (take k cards) = (s, None)" for k s
    using write_loop_counts [OF that(2)] that(1) by simp
  have step: "((imported s' = imported s + 1 \<and> skipped s' = skipped s) \<or>
           (imported s' = imported s \<and> skipped s' = skipped s + 1)) \<and>
          write_loop R ntype did ?init (take (Suc k) cards) = (s', None)"
    if "write_loop R ntype did ?init (take k cards) = (s, None)"
      and "k < length cards" and "import_card R ntype did s (cards ! k) = Inr s'" for k s s'
  proof -
    have "take (Suc k) cards = take k cards @ [cards ! k]"
      using that(2) by (rule take_Suc_conv_app_nth)
    then have "write_loop R ntype did ?init (take (Suc k) cards) = (s', None)"
      using that(1,3) by (simp add: write_loop_append)
    with import_card_step [OF that(3)] show ?thesis by auto
  qed
  have ok: "import_cards R rm ui w =
         (save_settings ui w)\<lparr>calls := cs, col := reset (ls_col st),
            status_text := status_text w @
              [Starting_import, Fetching_cards, Retrieved_cards (length cards), Import_complete,
               Imported_line (imported st), Skipped_line (skipped st)],
            shown := shown w @ [Info_imported (imported st) (strip (anki_deck_text ui))]\<rparr> \<and>
       imported st + skipped st = length cards \<and>
       length (col_notes (ls_col st)) = length (col_notes (col w)) + imported st \<and>
       (\<forall>k \<le> length cards. \<exists>s. write_loop R ntype did ?init (take k cards) = (s, None))"
    if "r = None"
  proof -
    from run that have l: "write_loop R ntype did ?init cards = (st, None)" by simp
    note eq = import_cards_succeeds [OF assms l]
    from write_loop_counts [OF l] cn have cnt: "imported st + skipped st = length cards"
      "length (col_notes (ls_col st)) = length (col_notes (col w)) + imported st"
      by simp_all
    from write_loop_prefix_ok [OF l] eq cnt show ?thesis by blast
  qed
  have bad: "col (import_cards R rm ui w) = ls_col st \<and>
       (\<exists>k < length cards.
          write_loop R ntype did ?init (take k cards) = (st, None) \<and>
          import_card R ntype did st (cards ! k) = Inl e \<and>
          imported st + skipped st = k \<and>
          length (col_notes (ls_col st)) = length (col_notes (col w)) + imported st)"
    if "r = Some e" for e
  proof -
    from run that have l: "write_loop R ntype did ?init cards = (st, Some e)" by simp
    have eq: "col (import_cards R rm ui w) = ls_col st"
      by (simp add: import_cards_writing_fails [OF assms l])
    from write_loop_fails_at [OF l] obtain k where k: "k < length cards"
      and p: "write_loop R ntype did ?init (take k cards) = (st, None)"
      and b: "import_card R ntype did st (cards ! k) = Inl e"
      by blast
    from prefix [OF _ p] k cn have "imported st + skipped st = k"
      "length (col_notes (ls_col st)) = length (col_notes (col w)) + imported st"
      by simp_all
    with eq k p b show ?thesis by blast
  qed
  show ?thesis
    using run ok bad prefix step by blast
qed

theorem counters_count_processed_witness:
  "deck_combo_count ui_basic \<noteq> 0 \<and> strip (anki_deck_text ui_basic) \<noteq> [] \<and>
   status_text (import_cards id (remote_cards [taberu, JNull, kana_only]) ui_basic start_world) =
     [Starting_import, Fetching_cards, Retrieved_cards 3, Import_complete,
      Imported_line 2, Skipped_line 1] \<and>
   shown (import_cards id (remote_cards [taberu, JNull, kana_only]) ui_basic start_world) =
     [Info_imported 2 (ustr ''JPDB'')] \<and>
   length (col_notes (col (import_cards id (remote_cards [taberu, JNull, kana_only])
     ui_basic start_world))) = 2"
proof -
  let ?cards = "[taberu, JNull, kana_only]"
  from counters_count_processed [where R = id, OF run_facts(1,2) run_facts(5) [of ?cards]
      run_facts(7) run_facts(9)]
  obtain st r where
    run: "write_loop id basic_notetype 1
      \<lparr>ls_col = start_collection\<lparr>col_decks := [(ustr ''JPDB'', 1)]\<rparr>, imported = 0, skipped = 0\<rparr>
      ?cards = (st, r)"
    and ok: "r = None \<longrightarrow>
       import_cards id (remote_cards ?cards) ui_basic start_world =
         (save_settings ui_basic start_world)
           \<lparr>calls := [Deck_list_vocabulary 7, Lookup_vocabulary [[1, 1], [2, 2]]],
            col := reset (ls_col st),
            status_text := status_text start_world @
              [Starting_import, Fetching_cards, Retrieved_cards (length ?cards), Import_complete,
               Imported_line (imported st), Skipped_line (skipped st)],
            shown := shown start_world @
              [Info_imported (imported st) (strip (anki_deck_text ui_basic))]\<rparr> \<and>
       imported st + skipped st = length ?cards \<and>
       length (col_notes (ls_col st)) = length (col_notes (col start_world)) + imported st"
    by blast
  from run [unfolded write_loop_run]
  have r: "r = None" and i: "imported st = 2" and s: "skipped st = 1"
    by auto
  have n: "col_notes (col start_world) = []"
    by (simp add: world_simps start_collection_def)
  from ok r i s n show ?thesis
    using run_facts(1,2) by (simp add: world_simps ui_simps strip_jpdb reset_def)
qed

section \<open>An exception ends the run\<close>

text \<open>
  C6, as the claim states it: the outcome of a failed run includes the counters. It does
  not: two runs that fail on their second record, one after importing the first and one
  after skipping it, append the same status lines and show the same warning.
\<close>

theorem counters_not_reported_counterexample:
  "status_text (import_cards id (remote_cards [taberu, JInt 5, kana_only]) ui_basic start_world) =
     [Starting_import, Fetching_cards, Retrieved_cards 3, Error_during_import TypeError] \<and>
   shown (import_cards id (remote_cards [taberu, JInt 5, kana_only]) ui_basic start_world) =
     [Warn_import_failed TypeError] \<and>
   status_text (import_cards id (remote_cards [JNull, JInt 5, kana_only]) ui_basic start_world) =
     [Starting_import, Fetching_cards, Retrieved_cards 3, Error_during_import TypeError] \<and>
   shown (import_cards id (remote_cards [JNull, JInt 5, kana_only]) ui_basic start_world) =
     [Warn_import_failed TypeError] \<and>
   imported (fst (write_loop id basic_notetype 1
      \<lparr>ls_col = start_collection\<lparr>col_decks := [(ustr ''JPDB'', 1)]\<rparr>, imported = 0, skipped = 0\<rparr>
      [taberu, JInt 5, kana_only])) = 1 \<and>
   imported (fst (write_loop id basic_notetype 1
      \<lparr>ls_col = start_collection\<lparr>col_decks := [(ustr ''JPDB'', 1)]\<rparr>, imported = 0, skipped = 0\<rparr>
      [JNull, JInt 5, kana_only])) = 0"
proof -
  note a = import_cards_writing_fails [OF run_facts(1,2,5,7,9) write_loop_taberu_five]
  note b = import_cards_writing_fails [OF run_facts(1,2,5,7,9) write_loop_none_five]
  show ?thesis
    unfolding a b write_loop_taberu_five write_loop_none_five
    by (simp add: world_simps save_settings_def)
qed

text \<open>
  C6, amended: past the two guards on the dialog, an exception while the cards are
  fetched, or in the loop that writes the notes, ends the run at once. What is appended to
  the status area is the lines before the exception and one line with the exception, and
  one warning with the exception is shown; no line has a counter. When the loop raises on
  a record, the collection is the one reached after the records before it, with the notes
  of the imported ones added after those that were there, and no refresh; the records
  after it are not read.
\<close>

theorem abort_keeps_writes:
  assumes "deck_combo_count ui \<noteq> 0" and "strip (anki_deck_text ui) \<noteq> []"
    and "get_deck_cards rm (calls w) (deck_combo_data ui) 1000 100 = (cs, res)"
    and "decks_id (col w) (strip (anki_deck_text ui)) = (c, did)"
  shows "(\<forall>e. res = Inl e \<longrightarrow>
      import_cards R rm ui w =
        (save_settings ui w)\<lparr>calls := cs,
           status_text := status_text w @ [Starting_import, Fetching_cards, Error_during_import e],
           shown := shown w @ [Warn_import_failed e]\<rparr>) \<and>
    (\<forall>cards ntype st e.
       res = Inr cards \<and> by_name (col w) (note_type_text ui) = Some ntype \<and>
       write_loop R ntype did \<lparr>ls_col = c, imported = 0, skipped = 0\<rparr> cards = (st, Some e) \<longrightarrow>
       import_cards R rm ui w =
         (save_settings ui w)\<lparr>calls := cs, col := ls_col st,
            status_text := status_text w @
              [Starting_import, Fetching_cards, Retrieved_cards (length cards),
               Error_during_import e],
            shown := shown w @ [Warn_import_failed e]\<rparr> \<and>
       (\<exists>pre bad post ns.
          cards = pre @ bad # post \<and>
          write_loop R ntype did \<lparr>ls_col = c, imported = 0, skipped = 0\<rparr> pre = (st, None) \<and>
          import_card R ntype did st bad = Inl e \<and>
          imported st + skipped st = length pre \<and>
          col_notes (ls_col st) = col_notes (col w) @ ns \<and> length ns = imported st \<and>
          col_resets (ls_col st) = col_resets (col w)))"
proof -
  have resolving: "import_cards R rm ui w =
        (save_settings ui w)\<lparr>calls := cs,
           status_text := status_text w @ [Starting_import, Fetching_cards, Error_during_import e],
           shown := shown w @ [Warn_import_failed e]\<rparr>" if "res = Inl e" for e
    using import_cards_resolving_fails [OF assms(1,2)] assms(3) that by simp
  have writing: "import_cards R rm ui w =
         (save_settings ui w)\<lparr>calls := cs, col := ls_col st,
            status_text := status_text w @
              [Starting_import, Fetching_cards, Retrieved_cards (length cards),
               Error_during_import e],
            shown := shown w @ [Warn_import_failed e]\<rparr> \<and>
       (\<exists>pre bad post ns.
          cards = pre @ bad # post \<and>
          write_loop R ntype did \<lparr>ls_col = c, imported = 0, skipped = 0\<rparr> pre = (st, None) \<and>
          import_card R ntype did st bad = Inl e \<and>
          imported st + skipped st = length pre \<and>
          col_notes (ls_col st) = col_notes (col w) @ ns \<and> length ns = imported st \<and>
          col_resets (ls_col st) = col_resets (col w))"
    if r: "res = Inr cards" and t: "by_name (col w) (note_type_text ui) = Some ntype"
      and l: "write_loop R ntype did \<lparr>ls_col = c, imported = 0, skipped = 0\<rparr> cards = (st, Some e)"
    for cards ntype st e
  proof -
    have g: "get_deck_cards rm (calls w) (deck_combo_data ui) 1000 100 = (cs, Inr cards)"
      using assms(3) r by simp
    note eq = import_cards_writing_fails [OF assms(1,2) g t assms(4) l]
    from write_loop_fails [OF l] obtain pre bad post where
      split: "cards = pre @ bad # post"
      and pre: "write_loop R ntype did \<lparr>ls_col = c, imported = 0, skipped = 0\<rparr> pre = (st, None)"
      and bad: "import_card R ntype did st bad = Inl e"
      by blast
    from write_loop_counts [OF pre] have cnt: "imported st + skipped st = length pre"
      by simp
    from write_loop_notes [OF l] obtain ns where
      ns: "col_notes (ls_col st) = col_notes c @ ns" "imported st = length ns"
        "col_resets (ls_col st) = col_resets c"
      by auto
    have c: "col_notes c = col_notes (col w)" "col_resets c = col_resets (col w)"
      using decks_id_keeps [of "col w" "strip (anki_deck_text ui)"] assms(4) by simp_all
    from split pre bad cnt ns c have "\<exists>pre bad post ns.
          cards = pre @ bad # post \<and>
          write_loop R ntype did \<lparr>ls_col = c, imported = 0, skipped = 0\<rparr> pre = (st, None) \<and>
          import_card R ntype did st bad = Inl e \<and>
          imported st + skipped st = length pre \<and>
          col_notes (ls_col st) = col_notes (col w) @ ns \<and> length ns = imported st \<and>
          col_resets (ls_col st) = col_resets (col w)"
      by auto
    with eq show ?thesis by blast
  qed
  show ?thesis
    using resolving writing by blast
qed

theorem abort_keeps_writes_witness:
  "deck_combo_count ui_basic \<noteq> 0 \<and> strip (anki_deck_text ui_basic) \<noteq> [] \<and>
   import_cards id (remote_cards [taberu, JInt 5, kana_only]) ui_basic start_world =
     (save_settings ui_basic start_world)
       \<lparr>calls := [Deck_list_vocabulary 7, Lookup_vocabulary [[1, 1], [2, 2]]],
        col := addNote (start_collection\<lparr>col_decks := [(ustr ''JPDB'', 1)]\<rparr>)
          \<lparr>note_model = basic_notetype\<lparr>nt_did := 1\<rparr>,
           note_fields = [JStr [39135, 12409, 12427, 32, 40, 12383, 12409, 12427, 41],
                          JStr (ustr ''to eat, to dine'')]\<rparr>,
        status_text := [Starting_import, Fetching_cards, Retrieved_cards 3,
                        Error_during_import TypeError],
        shown := [Warn_import_failed TypeError]\<rparr>"
proof -
  note T = abort_keeps_writes [where R = id, OF run_facts(1,2)
      run_facts(5) [of "[taberu, JInt 5, kana_only]"] run_facts(9),
      THEN conjunct2, rule_format, OF conjI [OF refl conjI [OF run_facts(7) write_loop_taberu_five]],
      THEN conjunct1]
  show ?thesis
    using run_facts(1,2) T by (simp add: world_simps)
qed

section \<open>The order of the checks\<close>

text \<open>
  C1, as the claim states it: an unknown note type ends the run before any request and
  before any change to the collection. It does not: the note type is looked up after the
  cards are fetched and after the deck is created.
\<close>

theorem note_type_checked_late_counterexample:
  "by_name (col start_world) (note_type_text ui_missing) = None \<and>
   calls start_world = [] \<and> col_decks (col start_world) = [] \<and>
   calls (import_cards id (remote_cards [taberu]) ui_missing start_world) =
     [Deck_list_vocabulary 7, Lookup_vocabulary [[1, 1], [2, 2]]] \<and>
   col_decks (col (import_cards id (remote_cards [taberu]) ui_missing start_world)) =
     [(ustr ''JPDB'', 1)] \<and>
   shown (import_cards id (remote_cards [taberu]) ui_missing start_world) =
     [Warn_note_type_not_found (ustr ''Missing'')]"
proof -
  note a = import_cards_note_type_missing [where R = id, OF run_facts(3,4)
      run_facts(6) [of "[taberu]"] run_facts(8)]
  have e: "col_decks (col start_world) = []"
    by (simp add: world_simps start_collection_def)
  show ?thesis
    unfolding a using e
    by (simp add: run_facts world_simps ui_simps save_settings_def strip_jpdb decks_id_start
        by_name_start)
qed

text \<open>
  C1, amended: when no deck is loaded, or the deck name is empty once stripped, the run
  ends with a warning and nothing else changes: no request, no change to the collection,
  no setting saved. When the note type is unknown, no note is written and the view is not
  refreshed, but the settings are saved, the cards are fetched and the deck is got or
  created first: if fetching succeeds the run ends with the warning that the note type is
  not found, and if it fails, with the failure of the import.
\<close>

theorem validation_order:
  "(deck_combo_count ui = 0 \<longrightarrow>
      import_cards R rm ui w = w\<lparr>shown := shown w @ [Warn_load_decks_first]\<rparr>) \<and>
   (deck_combo_count ui \<noteq> 0 \<and> strip (anki_deck_text ui) = [] \<longrightarrow>
      import_cards R rm ui w = w\<lparr>shown := shown w @ [Warn_enter_deck_name]\<rparr>) \<and>
   (deck_combo_count ui \<noteq> 0 \<and> strip (anki_deck_text ui) \<noteq> [] \<and>
    by_name (col w) (note_type_text ui) = None \<longrightarrow>
      col_notes (col (import_cards R rm ui w)) = col_notes (col w) \<and>
      col_resets (col (import_cards R rm ui w)) = col_resets (col w) \<and>
      (\<forall>cs cards.
         get_deck_cards rm (calls w) (deck_combo_data ui) 1000 100 = (cs, Inr cards) \<longrightarrow>
         import_cards R rm ui w =
           (save_settings ui w)\<lparr>calls := cs,
              col := fst (decks_id (col w) (strip (anki_deck_text ui))),
              status_text := status_text w @
                [Starting_import, Fetching_cards, Retrieved_cards (length cards)],
              shown := shown w @ [Warn_note_type_not_found (note_type_text ui)]\<rparr>) \<and>
      (\<forall>cs e.
         get_deck_cards rm (calls w) (deck_combo_data ui) 1000 100 = (cs, Inl e) \<longrightarrow>
         import_cards R rm ui w =
           (save_settings ui w)\<lparr>calls := cs,
              status_text := status_text w @
                [Starting_import, Fetching_cards, Error_during_import e],
              shown := shown w @ [Warn_import_failed e]\<rparr>))"
proof -
  have a: "import_cards R rm ui w = w\<lparr>shown := shown w @ [Warn_load_decks_first]\<rparr>"
    if "deck_combo_count ui = 0"
    using that by (simp add: import_cards_def)
  have b: "import_cards R rm ui w = w\<lparr>shown := shown w @ [Warn_enter_deck_name]\<rparr>"
    if "deck_combo_count ui \<noteq> 0" and "strip (anki_deck_text ui) = []"
    using that by (simp add: import_cards_def)
  have c: "col_notes (col (import_cards R rm ui w)) = col_notes (col w) \<and>
      col_resets (col (import_cards R rm ui w)) = col_resets (col w) \<and>
      (\<forall>cs cards.
         get_deck_cards rm (calls w) (deck_combo_data ui) 1000 100 = (cs, Inr cards) \<longrightarrow>
         import_cards R rm ui w =
           (save_settings ui w)\<lparr>calls := cs,
              col := fst (decks_id (col w) (strip (anki_deck_text ui))),
              status_text := status_text w @
                [Starting_import, Fetching_cards, Retrieved_cards (length cards)],
              shown := shown w @ [Warn_note_type_not_found (note_type_text ui)]\<rparr>) \<and>
      (\<forall>cs e.
         get_deck_cards rm (calls w) (deck_combo_data ui) 1000 100 = (cs, Inl e) \<longrightarrow>
         import_cards R rm ui w =
           (save_settings ui w)\<lparr>calls := cs,
              status_text := status_text w @
                [Starting_import, Fetching_cards, Error_during_import e],
              shown := shown w @ [Warn_import_failed e]\<rparr>)"
    if h: "deck_combo_count ui \<noteq> 0" "strip (anki_deck_text ui) \<noteq> []"
      and t: "by_name (col w) (note_type_text ui) = None"
  proof -
    obtain cs res where g: "get_deck_cards rm (calls w) (deck_combo_data ui) 1000 100 = (cs, res)"
      by (cases "get_deck_cards rm (calls w) (deck_combo_data ui) 1000 100")
    show ?thesis
    proof (cases res)
      case (Inl e)
      with g import_cards_resolving_fails [OF h, of rm w cs e R] show ?thesis
        by (simp add: save_settings_def)
    next
      case (Inr cards)
      with g import_cards_note_type_missing [OF h _ t, of rm cs cards R] show ?thesis
        by (simp add: save_settings_def decks_id_keeps)
    qed
  qed
  show ?thesis
    using a b c by blast
qed

theorem validation_order_witness:
  "import_cards id (remote_cards [taberu]) (ui_basic\<lparr>anki_deck_text := ustr ''  ''\<rparr>) start_world =
     start_world\<lparr>shown := [Warn_enter_deck_name]\<rparr> \<and>
   import_cards id (remote_cards [taberu]) (ui_basic\<lparr>deck_combo_count := 0\<rparr>) start_world =
     start_world\<lparr>shown := [Warn_load_decks_first]\<rparr> \<and>
   import_cards id (remote_cards [taberu]) ui_missing start_world =
     (save_settings ui_missing start_world)
       \<lparr>calls := [Deck_list_vocabulary 7, Lookup_vocabulary [[1, 1], [2, 2]]],
        col := start_collection\<lparr>col_decks := [(ustr ''JPDB'', 1)]\<rparr>,
        status_text := [Starting_import, Fetching_cards, Retrieved_cards 1],
        shown := [Warn_note_type_not_found (ustr ''Missing'')]\<rparr> \<and>
   col_notes (col (import_cards id (remote_cards [taberu]) ui_missing start_world)) = []"
proof -
  have blank: "deck_combo_count (ui_basic\<lparr>anki_deck_text := ustr ''  ''\<rparr>) \<noteq> 0 \<and>
      strip (anki_deck_text (ui_basic\<lparr>anki_deck_text := ustr ''  ''\<rparr>)) = []"
    by (simp add: ui_simps strip_def py_isspace_def ustr_def)
  have none: "deck_combo_count (ui_basic\<lparr>deck_combo_count := 0\<rparr>) = 0"
    by simp
  have miss: "deck_combo_count ui_missing \<noteq> 0 \<and> strip (anki_deck_text ui_missing) \<noteq> [] \<and>
    by_name (col start_world) (note_type_text ui_missing) = None"
    using run_facts(3,4,8) by simp
  note T1 = validation_order [of "ui_basic\<lparr>anki_deck_text := ustr ''  ''\<rparr>" id
      "remote_cards [taberu]" start_world, THEN conjunct2, THEN conjunct1, rule_format, OF blank]
  note T2 = validation_order [of "ui_basic\<lparr>deck_combo_count := 0\<rparr>" id
      "remote_cards [taberu]" start_world, THEN conjunct1, rule_format, OF none]
  note T3 = validation_order [of ui_missing id "remote_cards [taberu]" start_world,
      THEN conjunct2, THEN conjunct2, rule_format, OF miss]
  note T3a = T3 [THEN conjunct1]
  note T3b = T3 [THEN conjunct2, THEN conjunct2, THEN conjunct1, rule_format,
      OF run_facts(6) [of "[taberu]"]]
  have n: "col_notes start_collection = []"
    by (simp add: start_collection_def)
  show ?thesis
    using T1 T2 T3a T3b n
    by (simp add: world_simps run_facts ui_simps strip_jpdb decks_id_start)
qed

end
